theory Spec2Isabelle
  imports Main
begin

section \<open>Common values: errors, panics, outcomes\<close>

text \<open>
  The Go sources return \<open>error\<close> values built with \<open>errors.Errorf\<close>, \<open>errors.Wrap\<close> and
  \<open>errors.WithMessage\<close>. Each construction site of the sources is one constructor below;
  the formatted message is given in the comment. \<open>ErrExternal\<close> stands for an error value
  handed over by a collaborator (network, vault, session, membership service).
\<close>

datatype ValidationCode = Valid | Invalid | Busy | Unknown | HasDependencies | OtherCode nat

datatype error =
    ErrExternal string
  | ErrNotValid string
      \<comment> \<open>\<open>transaction [%s] is not valid\<close>\<close>
  | ErrStatusFromVault error string
      \<comment> \<open>\<open>WithMessagef(err, failed getting transaction status from vault [%s])\<close>\<close>
  | ErrListenTimeout string "error option" ValidationCode
      \<comment> \<open>\<open>failed to listen to transaction [%s] for timeout, err [%s, %c]\<close>\<close>
  | ErrLacksFilter
      \<comment> \<open>\<open>block metadata lacks transaction filter\<close>\<close>
  | ErrWrap error string
      \<comment> \<open>\<open>errors.Wrap(err, msg)\<close>, \<open>errors.Wrapf\<close>, \<open>errors.WithMessage(err, msg)\<close>\<close>
  | ErrorfMsg string
      \<comment> \<open>\<open>errors.Errorf(msg)\<close> and \<open>errors.New(msg)\<close>\<close>
  | ErrTimeoutFromParty string
      \<comment> \<open>\<open>Timeout from party %s\<close>\<close>
  | ErrDifferentResults
      \<comment> \<open>\<open>received different results\<close>\<close>
  | ErrInvalidEndorsement string
      \<comment> \<open>\<open>invalid endorsement, expected one signed by [%s]\<close>\<close>
  | ErrCaughtPanic string
      \<comment> \<open>\<open>caught panic [%v]\<close>\<close>

text \<open>
  A Go panic carries a value of any type. \<open>RunView\<close> distinguishes the values that are
  errors, the values that are strings, and all others (kept by their \<open>%v\<close> rendering).
  By the Go specification a panic raised with a nil interface value is a run-time panic
  carrying a \<open>*runtime.PanicNilError\<close>, which is an error; so a recovered value is one of
  these three.
\<close>

datatype panic_value = PanicError error | PanicString string | PanicOther string

datatype 'a outcome = Return 'a | Panic panic_value

section \<open>Transaction events and the listener registry (committer.go)\<close>

record TxEvent =
  Txid :: string
  DependantTxIDs :: "string list"
  Err :: "error option"

text \<open>
  A channel \<open>chan TxEvent\<close> is identified by a number; \<open>chans\<close> holds what each channel
  buffers. \<open>listeners\<close> is the field \<open>map[string][]chan TxEvent\<close>. \<open>calls\<close> records, in
  order, the calls the committer makes to its collaborators.
\<close>

datatype call =
    CallCommitter string
  | CallStatus string
  | CallFinality string string
  | CallHandleConfig nat
  | CallHandleEndorser nat

record committer =
  channel :: string
  peerAddress :: string
  listeners :: "string \<rightharpoonup> nat list"
  chans :: "nat \<Rightarrow> TxEvent list"
  next_chan :: nat
  calls :: "call list"

text \<open>Reading a Go map at a missing key gives the nil slice.\<close>

definition listeners_of :: "(string \<rightharpoonup> nat list) \<Rightarrow> string \<Rightarrow> nat list" where
  "listeners_of m txid = (case m txid of None \<Rightarrow> [] | Some ls \<Rightarrow> ls)"

definition addListener :: "string \<Rightarrow> nat \<Rightarrow> committer \<Rightarrow> committer" where
  "addListener txid ch c =
     (let ls = (case listeners c txid of None \<Rightarrow> [] | Some ls \<Rightarrow> ls)
      in c\<lparr>listeners := (listeners c)(txid \<mapsto> ls @ [ch])\<rparr>)"

text \<open>The loop \<open>for i, l := range ls\<close> of \<open>deleteListener\<close>: the index of the first match.\<close>

fun first_match :: "nat \<Rightarrow> nat list \<Rightarrow> nat \<Rightarrow> nat option" where
  "first_match ch [] i = None"
| "first_match ch (l # ls) i = (if l = ch then Some i else first_match ch ls (Suc i))"

definition deleteListener :: "string \<Rightarrow> nat \<Rightarrow> committer \<Rightarrow> committer" where
  "deleteListener txid ch c =
     (case listeners c txid of
        None \<Rightarrow> c
      | Some ls \<Rightarrow>
          (case first_match ch ls 0 of
             None \<Rightarrow> c
           | Some i \<Rightarrow> c\<lparr>listeners := (listeners c)(txid \<mapsto> take i ls @ drop (Suc i) ls)\<rparr>))"

text \<open>
  Channels are created by \<open>make(chan TxEvent, 100)\<close>. A send on a channel whose buffer is
  full blocks; in this sequential model nobody drains the channel meanwhile, so a blocked
  send is the value \<open>None\<close> (the call does not return).
\<close>

definition chan_cap :: nat where
  "chan_cap = 100"

definition send :: "nat \<Rightarrow> TxEvent \<Rightarrow> (nat \<Rightarrow> TxEvent list) \<Rightarrow> (nat \<Rightarrow> TxEvent list) option" where
  "send l ev cs = (if length (cs l) < chan_cap then Some (cs(l := cs l @ [ev])) else None)"

fun send_all :: "nat list \<Rightarrow> TxEvent \<Rightarrow> (nat \<Rightarrow> TxEvent list) \<Rightarrow> (nat \<Rightarrow> TxEvent list) option" where
  "send_all [] ev cs = Some cs"
| "send_all (l # ls) ev cs =
     (case send l ev cs of None \<Rightarrow> None | Some cs' \<Rightarrow> send_all ls ev cs')"

fun notify_dependants ::
  "(string \<rightharpoonup> nat list) \<Rightarrow> string list \<Rightarrow> TxEvent \<Rightarrow> (nat \<Rightarrow> TxEvent list)
     \<Rightarrow> (nat \<Rightarrow> TxEvent list) option" where
  "notify_dependants m [] ev cs = Some cs"
| "notify_dependants m (txid # txids) ev cs =
     (case send_all (listeners_of m txid) ev cs of
        None \<Rightarrow> None
      | Some cs' \<Rightarrow> notify_dependants m txids ev cs')"

text \<open>
  \<open>notify\<close> runs between \<open>c.mutex.Lock()\<close> and the deferred \<open>c.mutex.Unlock()\<close>: it is one
  transition of the registry. The warning it logs for a failed event has no effect on the
  state.
\<close>

definition notify :: "TxEvent \<Rightarrow> committer \<Rightarrow> committer option" where
  "notify event c =
     (case send_all (listeners_of (listeners c) (Txid event)) event (chans c) of
        None \<Rightarrow> None
      | Some cs1 \<Rightarrow>
          (case notify_dependants (listeners c) (DependantTxIDs event) event cs1 of
             None \<Rightarrow> None
           | Some cs2 \<Rightarrow> Some (c\<lparr>chans := cs2\<rparr>)))"

text \<open>The channels an event is addressed to, with repetitions, in delivery order.\<close>

definition targets :: "committer \<Rightarrow> TxEvent \<Rightarrow> nat list" where
  "targets c event =
     concat (map (listeners_of (listeners c)) (Txid event # DependantTxIDs event))"

section \<open>Finality resolution (committer.go, IsFinal and listenTo)\<close>

text \<open>
  The collaborators of the committer. Their answers may change while a call runs (the
  vault is updated as blocks are committed), so each answer depends on the number of
  collaborator calls made so far. \<open>network_Committer\<close> is the error result of
  \<open>c.network.Committer(c.channel)\<close>, \<open>Status\<close> the triple returned by
  \<open>committer.Status(txid)\<close>, \<open>finality_IsFinal\<close> the result of
  \<open>c.finality.IsFinal(txid, address)\<close>. A collaborator may panic. \<open>select\<close> tells
  which case of the \<open>select\<close> statement of \<open>listenTo\<close> fires: an event arrives on the
  subscriber channel, or \<open>time.After(timeout)\<close> fires first.
\<close>

datatype selected = Received TxEvent | TimedOut

record env =
  network_Committer :: "nat \<Rightarrow> error option outcome"
  Status :: "nat \<Rightarrow> string \<Rightarrow> (ValidationCode \<times> string list \<times> error option) outcome"
  finality_IsFinal :: "nat \<Rightarrow> string \<Rightarrow> string \<Rightarrow> error option outcome"
  select :: "nat \<Rightarrow> string \<Rightarrow> selected"

definition log_call :: "call \<Rightarrow> committer \<Rightarrow> committer" where
  "log_call x c = c\<lparr>calls := calls c @ [x]\<rparr>"

text \<open>\<open>ch := make(chan TxEvent, 100)\<close>: a channel not in use so far, with an empty buffer.\<close>

definition make_chan :: "committer \<Rightarrow> nat \<times> committer" where
  "make_chan c = (next_chan c, c\<lparr>chans := (chans c)(next_chan c := []), next_chan := Suc (next_chan c)\<rparr>)"

text \<open>The \<open>select\<close> statement of \<open>listenTo\<close>, with both of its cases.\<close>

definition listenTo_select :: "env \<Rightarrow> string \<Rightarrow> committer \<Rightarrow> error option outcome \<times> committer" where
  "listenTo_select E txid c =
     (case select E (length (calls c)) txid of
        Received event \<Rightarrow> (Return (Err event), c)
      | TimedOut \<Rightarrow>
          (let c1 = log_call (CallCommitter (channel c)) c in
           case network_Committer E (length (calls c)) of
             Panic p \<Rightarrow> (Panic p, c1)
           | Return (Some err) \<Rightarrow> (Return (Some err), c1)
           | Return None \<Rightarrow>
               (let c2 = log_call (CallStatus txid) c1 in
                case Status E (length (calls c1)) txid of
                  Panic p \<Rightarrow> (Panic p, c2)
                | Return (vd, deps, err) \<Rightarrow>
                    (if err = None \<and> vd = Valid then (Return None, c2)
                     else if err = None \<and> vd = Invalid then (Return (Some (ErrNotValid txid)), c2)
                     else (Return (Some (ErrListenTimeout txid err vd)), c2)))))"

text \<open>
  \<open>listenTo\<close>: the deferred \<open>deleteListener\<close> runs on every way out of the function,
  also when a collaborator panics.
\<close>

definition listenTo :: "env \<Rightarrow> string \<Rightarrow> committer \<Rightarrow> error option outcome \<times> committer" where
  "listenTo E txid c =
     (let (ch, c1) = make_chan c;
          c2 = addListener txid ch c1;
          (r, c3) = listenTo_select E txid c2
      in (r, deleteListener txid ch c3))"

text \<open>
  The loop \<open>for _, id := range deps\<close> of \<open>IsFinal\<close>: the first dependency that does not
  resolve to nil ends the loop with its result; \<open>return nil\<close> follows the loop.
  \<open>None\<close> is a recursive call that does not return.
\<close>

fun for_deps ::
  "(string \<Rightarrow> committer \<Rightarrow> (error option outcome \<times> committer) option)
     \<Rightarrow> string list \<Rightarrow> committer \<Rightarrow> (error option outcome \<times> committer) option" where
  "for_deps f [] c = Some (Return None, c)"
| "for_deps f (d # ds) c =
     (case f d c of
        None \<Rightarrow> None
      | Some (Return None, c') \<Rightarrow> for_deps f ds c'
      | Some (r, c') \<Rightarrow> Some (r, c'))"

definition call_finality :: "env \<Rightarrow> string \<Rightarrow> committer \<Rightarrow> error option outcome \<times> committer" where
  "call_finality E txid c =
     (finality_IsFinal E (length (calls c)) txid (peerAddress c),
      log_call (CallFinality txid (peerAddress c)) c)"

text \<open>
  \<open>IsFinal\<close> recurses on the dependencies the status oracle reports; nothing bounds that
  recursion, so the model carries fuel: the first argument bounds the depth of the
  recursion, and \<open>None\<close> means that the depth was not enough.
\<close>

fun IsFinal :: "nat \<Rightarrow> env \<Rightarrow> string \<Rightarrow> committer \<Rightarrow> (error option outcome \<times> committer) option" where
  "IsFinal 0 E txid c = None"
| "IsFinal (Suc n) E txid c =
     (let c1 = log_call (CallCommitter (channel c)) c in
      case network_Committer E (length (calls c)) of
        Panic p \<Rightarrow> Some (Panic p, c1)
      | Return (Some err) \<Rightarrow> Some (Return (Some err), c1)
      | Return None \<Rightarrow>
          (let c2 = log_call (CallStatus txid) c1 in
           case Status E (length (calls c1)) txid of
             Panic p \<Rightarrow> Some (Panic p, c2)
           | Return (vd, deps, Some err) \<Rightarrow> Some (Return (Some (ErrStatusFromVault err txid)), c2)
           | Return (vd, deps, None) \<Rightarrow>
               (case vd of
                  Valid \<Rightarrow> Some (Return None, c2)
                | Invalid \<Rightarrow> Some (Return (Some (ErrNotValid txid)), c2)
                | Busy \<Rightarrow>
                    (if deps \<noteq> [] then for_deps (\<lambda>d c'. IsFinal n E d c') deps c2
                     else Some (listenTo E txid c2))
                | HasDependencies \<Rightarrow>
                    (if deps \<noteq> [] then for_deps (\<lambda>d c'. IsFinal n E d c') deps c2
                     else Some (call_finality E txid c2))
                | Unknown \<Rightarrow> Some (call_finality E txid c2)
                | OtherCode k \<Rightarrow> Some (Panic (PanicString ''invalid status code''), c2))))"

declare IsFinal.simps [simp del]

text \<open>
  The committer after the two calls that open \<open>IsFinal\<close>: the lookup of the channel's
  committer and the status query.
\<close>

definition after_status_query :: "string \<Rightarrow> committer \<Rightarrow> committer" where
  "after_status_query txid c = log_call (CallStatus txid) (log_call (CallCommitter (channel c)) c)"

text \<open>
  The dependencies \<open>ds\<close> all resolve to success, one after the other, each on the state
  its predecessor left: the result is the state after the last of them.
\<close>

fun all_final ::
  "(string \<Rightarrow> committer \<Rightarrow> (error option outcome \<times> committer) option)
     \<Rightarrow> string list \<Rightarrow> committer \<Rightarrow> committer option" where
  "all_final f [] c = Some c"
| "all_final f (d # ds) c =
     (case f d c of Some (Return None, c') \<Rightarrow> all_final f ds c' | _ \<Rightarrow> None)"

text \<open>
  \<open>make\<close> gives a channel that exists nowhere else: the channel that \<open>make_chan\<close> will
  hand out is not registered under the transaction id.
\<close>

definition next_chan_is_new :: "string \<Rightarrow> committer \<Rightarrow> bool" where
  "next_chan_is_new txid c = (next_chan c \<notin> set (listeners_of (listeners c) txid))"

section \<open>Block processing (committer.go, Commit)\<close>

type_synonym bytes = string

text \<open>
  The protobuf messages \<open>Commit\<close> reads. A message-typed field is a pointer and may be
  nil: \<open>block.Data\<close>, \<open>block.Metadata\<close> and \<open>payl.Header\<close> are options, and reading
  through a nil pointer panics.
\<close>

record Envelope =
  env_Payload :: bytes

record Payload =
  Header_ChannelHeader :: "bytes option"

record ChannelHeader =
  chdr_Type :: int
  chdr_TxId :: string

record Block =
  Header_Number :: nat
  Data_Data :: "bytes list option"
  Metadata_Metadata :: "bytes list option"

text \<open>
  The constants of the Fabric protocol buffers (package \<open>common\<close>) that \<open>Commit\<close> uses:
  the header types and the position of the transaction filter (the array of
  transaction validation codes) in the block metadata, which holds
  SIGNATURES at 0, LAST_CONFIG at 1, TRANSACTIONS_FILTER at 2.
\<close>

definition HeaderType_CONFIG :: int where
  "HeaderType_CONFIG = 1"

definition HeaderType_ENDORSER_TRANSACTION :: int where
  "HeaderType_ENDORSER_TRANSACTION = 3"

definition BlockMetadataIndex_TRANSACTIONS_FILTER :: nat where
  "BlockMetadataIndex_TRANSACTIONS_FILTER = 2"

text \<open>
  The functions of \<open>protoutil\<close> and the two handlers that \<open>Commit\<close> calls, as
  \<open>c.handleConfig(block, i, env)\<close> and
  \<open>c.handleEndorserTransaction(block, i, &event, env, chdr)\<close>. The handlers return
  nothing to \<open>Commit\<close>; \<open>handleEndorserTransaction\<close> fills the event it is given.
  Both may panic (the handler of configuration transactions does so on every failure).
\<close>

record commit_env =
  UnmarshalEnvelope :: "bytes \<Rightarrow> error + Envelope"
  UnmarshalPayload :: "bytes \<Rightarrow> error + Payload"
  UnmarshalChannelHeader :: "bytes \<Rightarrow> error + ChannelHeader"
  handleConfig :: "Block \<Rightarrow> nat \<Rightarrow> Envelope \<Rightarrow> unit outcome"
  handleEndorserTransaction :: "Block \<Rightarrow> nat \<Rightarrow> Envelope \<Rightarrow> ChannelHeader \<Rightarrow> TxEvent outcome"

definition nil_dereference :: panic_value where
  "nil_dereference = PanicError (ErrExternal ''invalid memory address or nil pointer dereference'')"

text \<open>\<open>var event TxEvent\<close>: the zero event.\<close>

definition zero_event :: TxEvent where
  "zero_event = \<lparr>Txid = [], DependantTxIDs = [], Err = None\<rparr>"

text \<open>
  The \<open>switch\<close> on the header type: the event to notify, or the way \<open>Commit\<close> ends at this
  transaction.
\<close>

definition Commit_switch ::
  "commit_env \<Rightarrow> Block \<Rightarrow> nat \<Rightarrow> Envelope \<Rightarrow> ChannelHeader \<Rightarrow> committer
     \<Rightarrow> (error option outcome + TxEvent) \<times> committer" where
  "Commit_switch E block i env chdr c =
     (if chdr_Type chdr = HeaderType_CONFIG then
        (case handleConfig E block i env of
           Panic p \<Rightarrow> (Inl (Panic p), log_call (CallHandleConfig i) c)
         | Return u \<Rightarrow> (Inr zero_event, log_call (CallHandleConfig i) c))
      else if chdr_Type chdr = HeaderType_ENDORSER_TRANSACTION then
        (case Metadata_Metadata block of
           None \<Rightarrow> (Inl (Panic nil_dereference), c)
         | Some md \<Rightarrow>
             if length md < BlockMetadataIndex_TRANSACTIONS_FILTER
             then (Inl (Return (Some ErrLacksFilter)), c)
             else
               (case handleEndorserTransaction E block i env chdr of
                  Panic p \<Rightarrow> (Inl (Panic p), log_call (CallHandleEndorser i) c)
                | Return event \<Rightarrow> (Inr event, log_call (CallHandleEndorser i) c)))
      else (Inr zero_event, c))"

text \<open>
  The loop \<open>for i, tx := range block.Data.Data\<close>. \<open>None\<close>: \<open>notify\<close> does not return.
\<close>

fun Commit_loop ::
  "commit_env \<Rightarrow> Block \<Rightarrow> nat \<Rightarrow> bytes list \<Rightarrow> committer
     \<Rightarrow> (error option outcome \<times> committer) option" where
  "Commit_loop E block i [] c = Some (Return None, c)"
| "Commit_loop E block i (tx # txs) c =
     (case UnmarshalEnvelope E tx of
        Inl err \<Rightarrow> Some (Return (Some err), c)
      | Inr env \<Rightarrow>
     (case UnmarshalPayload E (env_Payload env) of
        Inl err \<Rightarrow> Some (Return (Some err), c)
      | Inr payl \<Rightarrow>
     (case Header_ChannelHeader payl of
        None \<Rightarrow> Some (Panic nil_dereference, c)
      | Some h \<Rightarrow>
     (case UnmarshalChannelHeader E h of
        Inl err \<Rightarrow> Some (Return (Some err), c)
      | Inr chdr \<Rightarrow>
     (case Commit_switch E block i env chdr c of
        (Inl r, c1) \<Rightarrow> Some (r, c1)
      | (Inr event, c1) \<Rightarrow>
          (case notify event c1 of
             None \<Rightarrow> None
           | Some c2 \<Rightarrow> Commit_loop E block (Suc i) txs c2))))))"

definition Commit :: "commit_env \<Rightarrow> Block \<Rightarrow> committer \<Rightarrow> (error option outcome \<times> committer) option" where
  "Commit E block c =
     (case Data_Data block of
        None \<Rightarrow> Some (Panic nil_dereference, c)
      | Some txs \<Rightarrow> Commit_loop E block 0 txs c)"

section \<open>Running a view in a child context (wrapper.go)\<close>














section \<open>Endorsement collection (collectEndorsementsView.Call)\<close>

text \<open>
  Identities, payloads and signatures are byte strings. A verifier is its method
  \<open>Verify(message, sigma)\<close>; a verifier provider is its method \<open>GetVerifier(identity)\<close>.
\<close>

record ProposalResponse =
  Endorser :: bytes
  pr_Payload :: bytes
  EndorserSignature :: bytes
  Results :: bytes

type_synonym Verifier = "bytes \<Rightarrow> bytes \<Rightarrow> error option"

type_synonym VerifierProvider = "bytes \<Rightarrow> error + Verifier"

record Message =
  msg_Status :: int
  msg_Payload :: bytes

definition view_ERROR :: int where
  "view_ERROR = 1"

text \<open>
  What arrives while \<open>Call\<close> waits in its \<open>select\<close>: a message, a nil message (the
  channel delivers the zero value, and reading \<open>msg.Status\<close> panics), or nothing within
  the 60 seconds.
\<close>

datatype received = Msg Message | NilMsg | NoReply

text \<open>
  The transaction \<open>c.tx\<close> is shared with the caller and changed in place; its state has
  type \<open>'t\<close>. The record holds what \<open>Call\<close> asks of its collaborators: the view tracker,
  the channel and its membership service, the methods of the transaction, the session to
  a party, the JSON decoder, the transaction manager and the endpoint service.
\<close>

record 't endorse_env =
  GetViewTracker :: "error option"
  fns_Channel :: "error option"
  msp_GetVerifier :: VerifierProvider
  tx_verifierProviders :: "VerifierProvider list"
  tx_Results :: "'t \<Rightarrow> error + bytes"
  IsMe :: "bytes \<Rightarrow> bool"
  EndorseWithIdentity :: "bytes \<Rightarrow> 't \<Rightarrow> error option \<times> 't"
  tx_Bytes :: "'t \<Rightarrow> error + bytes"
  tx_BytesNoTransient :: "'t \<Rightarrow> error + bytes"
  GetSession :: "bytes \<Rightarrow> error option"
  session_Send :: "bytes \<Rightarrow> bytes \<Rightarrow> error option"
  session_Receive :: "bytes \<Rightarrow> bytes \<Rightarrow> received"
  json_Unmarshal :: "bytes \<Rightarrow> error + bytes list"
  GetFabricNetworkService :: bool
  NewProposalResponseFromBytes :: "bytes \<Rightarrow> error + ProposalResponse"
  IsBoundTo :: "bytes \<Rightarrow> bytes \<Rightarrow> bool"
  AppendProposalResponse :: "ProposalResponse \<Rightarrow> 't \<Rightarrow> error option \<times> 't"

record collectEndorsementsView =
  parties :: "bytes list"
  deleteTransient :: bool
  verifierProviders :: "VerifierProvider list"

text \<open>The loop over the verifier providers: the first that knows the endorser.\<close>

fun first_provider :: "VerifierProvider list \<Rightarrow> bytes \<Rightarrow> Verifier option" where
  "first_provider [] endorser = None"
| "first_provider (provider # ps) endorser =
     (case provider endorser of Inr v \<Rightarrow> Some v | Inl err \<Rightarrow> first_provider ps endorser)"

definition get_verifier :: "'t endorse_env \<Rightarrow> VerifierProvider list \<Rightarrow> bytes \<Rightarrow> error + Verifier" where
  "get_verifier E vProviders endorser =
     (case msp_GetVerifier E endorser of
        Inr verifier \<Rightarrow> Inr verifier
      | Inl err \<Rightarrow>
          (case first_provider vProviders endorser of
             Some v \<Rightarrow> Inr v
           | None \<Rightarrow> Inl (ErrWrap err ''failed getting verifier for party'')))"

text \<open>
  The loop \<open>for _, response := range responses\<close>; \<open>found\<close> is the flag of that name.
  The result is the error that ends the loop early (if any), the flag and the
  transaction.
\<close>

fun for_responses ::
  "'t endorse_env \<Rightarrow> VerifierProvider list \<Rightarrow> bytes \<Rightarrow> bytes \<Rightarrow> bytes list \<Rightarrow> bool \<Rightarrow> 't
     \<Rightarrow> error option \<times> bool \<times> 't" where
  "for_responses E vProviders res party [] found t = (None, found, t)"
| "for_responses E vProviders res party (response # rs) found t =
     (case NewProposalResponseFromBytes E response of
        Inl err \<Rightarrow> (Some (ErrWrap err ''failed unmarshalling received proposal response''), found, t)
      | Inr proposalResponse \<Rightarrow>
          (let endorser = Endorser proposalResponse;
               found1 = (if IsBoundTo E endorser party then True else found)
           in case get_verifier E vProviders endorser of
                Inl err \<Rightarrow> (Some err, found1, t)
              | Inr verifier \<Rightarrow>
                  (case verifier (pr_Payload proposalResponse @ endorser)
                          (EndorserSignature proposalResponse) of
                     Some err \<Rightarrow> (Some (ErrWrap err ''failed verifying endorsement for party''), found1, t)
                   | None \<Rightarrow>
                       if res \<noteq> Results proposalResponse then (Some ErrDifferentResults, found1, t)
                       else
                         (case AppendProposalResponse E proposalResponse t of
                            (Some err, t1) \<Rightarrow>
                              (Some (ErrWrap err ''failed appending received proposal response''), found1, t1)
                          | (None, t1) \<Rightarrow> for_responses E vProviders res party rs found1 t1))))"

text \<open>One turn of the loop \<open>for _, party := range c.parties\<close>.\<close>

definition collect_from ::
  "'t endorse_env \<Rightarrow> collectEndorsementsView \<Rightarrow> VerifierProvider list \<Rightarrow> bytes \<Rightarrow> bytes \<Rightarrow> 't
     \<Rightarrow> error option outcome \<times> 't" where
  "collect_from E c vProviders res party t =
     (if IsMe E party then
        (case EndorseWithIdentity E party t of
           (Some err, t1) \<Rightarrow> (Return (Some (ErrWrap err ''failed endorsing transaction'')), t1)
         | (None, t1) \<Rightarrow> (Return None, t1))
      else
        (case (if deleteTransient c then tx_BytesNoTransient E t else tx_Bytes E t) of
           Inl err \<Rightarrow> (Return (Some (ErrWrap err ''failed marshalling transaction content'')), t)
         | Inr txRaw \<Rightarrow>
        (case GetSession E party of
           Some err \<Rightarrow> (Return (Some (ErrWrap err ''failed getting session'')), t)
         | None \<Rightarrow>
        (case session_Send E party txRaw of
           Some err \<Rightarrow> (Return (Some (ErrWrap err ''failed sending transaction content'')), t)
         | None \<Rightarrow>
        (case session_Receive E party txRaw of
           NoReply \<Rightarrow> (Return (Some (ErrTimeoutFromParty party)), t)
         | NilMsg \<Rightarrow> (Panic nil_dereference, t)
         | Msg msg \<Rightarrow>
             if msg_Status msg = view_ERROR then (Return (Some (ErrorfMsg (msg_Payload msg))), t)
             else
               (case json_Unmarshal E (msg_Payload msg) of
                  Inl err \<Rightarrow> (Return (Some (ErrWrap err ''failed unmarshalling response'')), t)
                | Inr responses \<Rightarrow>
                    if \<not> GetFabricNetworkService E
                    then (Return (Some (ErrorfMsg ''fabric network service not found'')), t)
                    else
                      (case for_responses E vProviders res party responses False t of
                         (Some err, found, t1) \<Rightarrow> (Return (Some err), t1)
                       | (None, found, t1) \<Rightarrow>
                           if \<not> found then (Return (Some (ErrInvalidEndorsement party)), t1)
                           else (Return None, t1))))))))"

fun for_parties ::
  "'t endorse_env \<Rightarrow> collectEndorsementsView \<Rightarrow> VerifierProvider list \<Rightarrow> bytes \<Rightarrow> bytes list \<Rightarrow> 't
     \<Rightarrow> error option outcome \<times> 't" where
  "for_parties E c vProviders res [] t = (Return None, t)"
| "for_parties E c vProviders res (party # ps) t =
     (case collect_from E c vProviders res party t of
        (Return None, t1) \<Rightarrow> for_parties E c vProviders res ps t1
      | (r, t1) \<Rightarrow> (r, t1))"

text \<open>
  \<open>Call\<close>: \<open>Return None\<close> is the result \<open>(c.tx, nil)\<close>, \<open>Return (Some err)\<close> the result
  \<open>(nil, err)\<close>; the second component is the shared transaction as the call leaves it.
\<close>

definition Call :: "'t endorse_env \<Rightarrow> collectEndorsementsView \<Rightarrow> 't \<Rightarrow> error option outcome \<times> 't" where
  "Call E c t =
     (case GetViewTracker E of
        Some err \<Rightarrow> (Return (Some err), t)
      | None \<Rightarrow>
     (case fns_Channel E of
        Some err \<Rightarrow> (Return (Some (ErrWrap err ''failed getting channel'')), t)
      | None \<Rightarrow>
          (let vProviders = verifierProviders c @ tx_verifierProviders E in
           case tx_Results E t of
             Inl err \<Rightarrow> (Return (Some (ErrWrap err ''failed getting tx results'')), t)
           | Inr res \<Rightarrow> for_parties E c vProviders res (parties c) t)))"

text \<open>
  The conditions under which a party is handled with success, stated on their own.
  A response is accepted when a verifier for its endorser is found, the signature over
  payload and endorser verifies, and its results are the local ones.
\<close>

definition response_ok :: "'t endorse_env \<Rightarrow> VerifierProvider list \<Rightarrow> bytes \<Rightarrow> ProposalResponse \<Rightarrow> bool" where
  "response_ok E vProviders res pr =
     ((case get_verifier E vProviders (Endorser pr) of
         Inl err \<Rightarrow> False
       | Inr verifier \<Rightarrow> verifier (pr_Payload pr @ Endorser pr) (EndorserSignature pr) = None)
      \<and> Results pr = res)"

fun parse_all :: "'t endorse_env \<Rightarrow> bytes list \<Rightarrow> ProposalResponse list option" where
  "parse_all E [] = Some []"
| "parse_all E (r # rs) =
     (case NewProposalResponseFromBytes E r of
        Inl err \<Rightarrow> None
      | Inr pr \<Rightarrow> (case parse_all E rs of None \<Rightarrow> None | Some prs \<Rightarrow> Some (pr # prs)))"

fun append_all :: "'t endorse_env \<Rightarrow> ProposalResponse list \<Rightarrow> 't \<Rightarrow> 't option" where
  "append_all E [] t = Some t"
| "append_all E (pr # prs) t =
     (case AppendProposalResponse E pr t of
        (None, t1) \<Rightarrow> append_all E prs t1
      | (Some err, t1) \<Rightarrow> None)"

text \<open>The reply of a remote party, decoded: the proposal responses it carries.\<close>

definition reply_of ::
  "'t endorse_env \<Rightarrow> collectEndorsementsView \<Rightarrow> bytes \<Rightarrow> 't \<Rightarrow> ProposalResponse list option" where
  "reply_of E c party t =
     (case (if deleteTransient c then tx_BytesNoTransient E t else tx_Bytes E t) of
        Inl err \<Rightarrow> None
      | Inr txRaw \<Rightarrow>
          if GetSession E party \<noteq> None \<or> session_Send E party txRaw \<noteq> None then None
          else
            (case session_Receive E party txRaw of
               Msg msg \<Rightarrow>
                 if msg_Status msg = view_ERROR then None
                 else
                   (case json_Unmarshal E (msg_Payload msg) of
                      Inl err \<Rightarrow> None
                    | Inr responses \<Rightarrow>
                        if GetFabricNetworkService E then parse_all E responses else None)
             | _ \<Rightarrow> None))"

definition party_ok ::
  "'t endorse_env \<Rightarrow> collectEndorsementsView \<Rightarrow> VerifierProvider list \<Rightarrow> bytes \<Rightarrow> bytes \<Rightarrow> 't \<Rightarrow> 't
     \<Rightarrow> bool" where
  "party_ok E c vProviders res party t t' =
     (if IsMe E party then EndorseWithIdentity E party t = (None, t')
      else
        (case reply_of E c party t of
           None \<Rightarrow> False
         | Some prs \<Rightarrow>
             list_all (response_ok E vProviders res) prs
             \<and> list_ex (\<lambda>pr. IsBoundTo E (Endorser pr) party) prs
             \<and> append_all E prs t = Some t'))"

text \<open>
  The parties are handled with success one after the other, each on the transaction its
  predecessor left.
\<close>

fun parties_ok ::
  "'t endorse_env \<Rightarrow> collectEndorsementsView \<Rightarrow> VerifierProvider list \<Rightarrow> bytes \<Rightarrow> bytes list
     \<Rightarrow> 't list \<Rightarrow> bool" where
  "parties_ok E c vProviders res [] ts = (length ts = 1)"
| "parties_ok E c vProviders res (party # ps) ts =
     (case ts of
        t # t1 # rest \<Rightarrow>
          party_ok E c vProviders res party t t1 \<and> parties_ok E c vProviders res ps (t1 # rest)
      | _ \<Rightarrow> False)"

section \<open>Concrete inputs\<close>

text \<open>
  A registry with two subscribers of transaction \<open>T\<close> and one of transaction \<open>D\<close>, and
  the event of \<open>T\<close> with dependant \<open>D\<close>.
\<close>

definition registry0 :: committer where
  "registry0 = \<lparr>channel = ''ch'', peerAddress = ''peer0'',
      listeners = [''T'' \<mapsto> [0, 1], ''D'' \<mapsto> [2]],
      chans = (\<lambda>_. []), next_chan = 3, calls = []\<rparr>"

definition event0 :: TxEvent where
  "event0 = \<lparr>Txid = ''T'', DependantTxIDs = [''D''], Err = None\<rparr>"

text \<open>
  Collaborators for a wait that times out and then finds the vault panicking.
\<close>

definition env_panic :: env where
  "env_panic = \<lparr>network_Committer = (\<lambda>_. Return None),
      Status = (\<lambda>_ _. Panic (PanicString ''vault closed'')),
      finality_IsFinal = (\<lambda>_ _ _. Return None),
      select = (\<lambda>_ _. TimedOut)\<rparr>"

text \<open>
  Collaborators that always answer the same: the case of the \<open>select\<close> that fires, the
  result of the lookup, the status of each transaction and the answer of the finality
  service.
\<close>

definition env_of ::
  "selected \<Rightarrow> error option outcome \<Rightarrow> (string \<Rightarrow> ValidationCode \<times> string list \<times> error option)
     \<Rightarrow> error option outcome \<Rightarrow> env" where
  "env_of sel lookup st fin =
     \<lparr>network_Committer = (\<lambda>_. lookup), Status = (\<lambda>_ txid. Return (st txid)),
      finality_IsFinal = (\<lambda>_ _ _. fin), select = (\<lambda>_ _. sel)\<rparr>"

text \<open>Status oracles that report every transaction valid, or every transaction invalid.\<close>

definition status_valid :: "string \<Rightarrow> ValidationCode \<times> string list \<times> error option" where
  "status_valid txid = (Valid, [], None)"

definition status_invalid :: "string \<Rightarrow> ValidationCode \<times> string list \<times> error option" where
  "status_invalid txid = (Invalid, [], None)"

text \<open>
  Transaction \<open>A\<close> is busy with dependencies \<open>B\<close> and \<open>C\<close>; \<open>C\<close> is valid, and \<open>B\<close> is
  invalid in the first oracle and valid in the second.
\<close>

definition status_deps_fail :: "string \<Rightarrow> ValidationCode \<times> string list \<times> error option" where
  "status_deps_fail txid =
     (if txid = ''A'' then (Busy, [''B'', ''C''], None)
      else if txid = ''B'' then (Invalid, [], None)
      else (Valid, [], None))"

definition status_deps_ok :: "string \<Rightarrow> ValidationCode \<times> string list \<times> error option" where
  "status_deps_ok txid =
     (if txid = ''A'' then (Busy, [''B'', ''C''], None) else (Valid, [], None))"

text \<open>
  The status oracle reports every transaction unknown; an event that carries an error.
\<close>

definition status_unknown :: "string \<Rightarrow> ValidationCode \<times> string list \<times> error option" where
  "status_unknown txid = (Unknown, [], None)"

definition failed_event :: TxEvent where
  "failed_event = \<lparr>Txid = ''T'', DependantTxIDs = [], Err = Some (ErrExternal ''mvcc conflict'')\<rparr>"

definition status_busy :: "string \<Rightarrow> ValidationCode \<times> string list \<times> error option" where
  "status_busy txid = (Busy, [], None)"

definition status_hasdeps :: "string \<Rightarrow> ValidationCode \<times> string list \<times> error option" where
  "status_hasdeps txid = (HasDependencies, [], None)"

text \<open>
  A block of one endorser transaction for \<open>T\<close>, and collaborators that decode it; the
  argument is what \<open>handleEndorserTransaction\<close> does. The metadata of \<open>block_no_filter\<close>
  has the entries SIGNATURES and LAST_CONFIG and no transaction filter; the metadata of
  \<open>block_short\<close> has one entry.
\<close>

definition commit_env0 :: "TxEvent outcome \<Rightarrow> commit_env" where
  "commit_env0 h =
     \<lparr>UnmarshalEnvelope = (\<lambda>tx. Inr \<lparr>env_Payload = tx\<rparr>),
      UnmarshalPayload = (\<lambda>p. Inr \<lparr>Header_ChannelHeader = Some p\<rparr>),
      UnmarshalChannelHeader = (\<lambda>h. Inr \<lparr>chdr_Type = 3, chdr_TxId = h\<rparr>),
      handleConfig = (\<lambda>_ _ _. Return ()),
      handleEndorserTransaction = (\<lambda>_ _ _ _. h)\<rparr>"

definition block_no_filter :: Block where
  "block_no_filter =
     \<lparr>Header_Number = 7, Data_Data = Some [''T''],
      Metadata_Metadata = Some [''signatures'', ''last config'']\<rparr>"

definition block_short :: Block where
  "block_short =
     \<lparr>Header_Number = 7, Data_Data = Some [''T''], Metadata_Metadata = Some [''signatures'']\<rparr>"

definition index_out_of_range :: panic_value where
  "index_out_of_range = PanicError (ErrExternal ''index out of range [2] with length 2'')"

definition valid_event :: TxEvent where
  "valid_event = \<lparr>Txid = ''T'', DependantTxIDs = [], Err = None\<rparr>"







text \<open>
  A concrete setting for endorsement collection. The transaction is the list of the
  proposal responses it holds. The local node is \<open>me\<close>; the identities \<open>B1\<close> and \<open>B2\<close> are
  bound to party \<open>B\<close>; the identity \<open>E\<close> is bound to nobody. The reply of a party is a
  string of one-letter records: \<open>1\<close> and \<open>2\<close> are valid responses of \<open>B1\<close> and \<open>B2\<close>, and
  \<open>x\<close> is a response of \<open>E\<close> with a valid signature and the local results.
\<close>

definition response_by :: "bytes \<Rightarrow> ProposalResponse" where
  "response_by endorser =
     \<lparr>Endorser = endorser, pr_Payload = ''payload'', EndorserSignature = ''ok'', Results = ''rws''\<rparr>"

definition decode_response :: "bytes \<Rightarrow> error + ProposalResponse" where
  "decode_response r =
     (if r = ''1'' then Inr (response_by ''B1'')
      else if r = ''2'' then Inr (response_by ''B2'')
      else if r = ''x'' then Inr (response_by ''E'')
      else Inl (ErrExternal ''malformed response''))"

definition accept_ok :: Verifier where
  "accept_ok message sigma = (if sigma = ''ok'' then None else Some (ErrExternal ''bad signature''))"

definition endorse_env0 :: "bytes \<Rightarrow> ProposalResponse list endorse_env" where
  "endorse_env0 reply =
     \<lparr>GetViewTracker = None, fns_Channel = None,
      msp_GetVerifier = (\<lambda>identity. Inr accept_ok),
      tx_verifierProviders = [],
      tx_Results = (\<lambda>t. Inr ''rws''),
      IsMe = (\<lambda>party. party = ''me''),
      EndorseWithIdentity = (\<lambda>identity t. (None, t @ [response_by identity])),
      tx_Bytes = (\<lambda>t. Inr ''tx''),
      tx_BytesNoTransient = (\<lambda>t. Inr ''tx''),
      GetSession = (\<lambda>party. None),
      session_Send = (\<lambda>party raw. None),
      session_Receive = (\<lambda>party raw. Msg \<lparr>msg_Status = 0, msg_Payload = reply\<rparr>),
      json_Unmarshal = (\<lambda>payload. Inr (map (\<lambda>x. [x]) payload)),
      GetFabricNetworkService = True,
      NewProposalResponseFromBytes = decode_response,
      IsBoundTo = (\<lambda>endorser party. party = ''B'' \<and> (endorser = ''B1'' \<or> endorser = ''B2'')),
      AppendProposalResponse = (\<lambda>pr t. (None, t @ [pr]))\<rparr>"

definition view0 :: collectEndorsementsView where
  "view0 = \<lparr>parties = [''me'', ''B''], deleteTransient = False, verifierProviders = []\<rparr>"

section \<open>Properties of the listener registry\<close>

lemma send_all_Some:
  "send_all ls ev cs = Some cs' \<Longrightarrow> cs' ch = cs ch @ replicate (count_list ls ch) ev"
proof (induction ls arbitrary: cs)
  case Nil
  then show ?case by simp
next
  case (Cons l ls)
  from Cons.prems obtain cs1 where s1: "send l ev cs = Some cs1"
    and rest: "send_all ls ev cs1 = Some cs'"
    by (auto split: option.splits)
  from s1 have cs1: "cs1 = cs(l := cs l @ [ev])"
    by (auto simp: send_def split: if_splits)
  from Cons.IH [OF rest] have "cs' ch = cs1 ch @ replicate (count_list ls ch) ev" .
  with cs1 show ?case
    by (simp add: replicate_app_Cons_same)
qed

lemma send_all_room:
  "(\<And>ch. ch \<in> set ls \<Longrightarrow> length (cs ch) + count_list ls ch \<le> chan_cap)
     \<Longrightarrow> send_all ls ev cs \<noteq> None"
proof (induction ls arbitrary: cs)
  case Nil
  then show ?case by simp
next
  case (Cons l ls)
  have "length (cs l) + count_list (l # ls) l \<le> chan_cap"
    using Cons.prems [of l] by simp
  then have room: "length (cs l) < chan_cap" by simp
  let ?cs1 = "cs(l := cs l @ [ev])"
  have "send_all ls ev ?cs1 \<noteq> None"
  proof (rule Cons.IH)
    fix ch assume "ch \<in> set ls"
    then show "length (?cs1 ch) + count_list ls ch \<le> chan_cap"
      using Cons.prems [of ch] by (auto split: if_splits)
  qed
  with room show ?case by (simp add: send_def)
qed

lemma send_all_append:
  "send_all (xs @ ys) ev cs = (case send_all xs ev cs of None \<Rightarrow> None | Some cs' \<Rightarrow> send_all ys ev cs')"
  by (induction xs arbitrary: cs) (auto split: option.splits)

lemma notify_dependants_concat:
  "notify_dependants m txids ev cs = send_all (concat (map (listeners_of m) txids)) ev cs"
  by (induction txids arbitrary: cs) (auto simp: send_all_append split: option.splits)

lemma notify_send_all:
  "notify event c = map_option (\<lambda>cs. c\<lparr>chans := cs\<rparr>) (send_all (targets c event) event (chans c))"
  by (auto simp: notify_def targets_def send_all_append notify_dependants_concat split: option.splits)

text \<open>
  Claim C6. \<open>notify\<close> is one transition of the registry (it runs with the mutex held
  from entry to return). When it returns, every channel has received the event once for
  each of its registrations under \<open>event.Txid\<close> and under the ids of
  \<open>event.DependantTxIDs\<close>, so no registered channel is missed, and the registry itself
  is unchanged. It returns whenever every addressed channel has room for the sends
  addressed to it.
\<close>

theorem notify_delivers_to_every_listener:
  "(notify event c = Some c' \<longrightarrow>
      listeners c' = listeners c
      \<and> (\<forall>ch. chans c' ch = chans c ch @ replicate (count_list (targets c event) ch) event)
      \<and> (\<forall>ch \<in> set (targets c event). event \<in> set (chans c' ch)))
   \<and> ((\<forall>ch \<in> set (targets c event).
          length (chans c ch) + count_list (targets c event) ch \<le> chan_cap)
        \<longrightarrow> notify event c \<noteq> None)"
proof (intro conjI impI)
  assume n: "notify event c = Some c'"
  then obtain cs where cs: "send_all (targets c event) event (chans c) = Some cs"
    and c': "c' = c\<lparr>chans := cs\<rparr>"
    by (auto simp: notify_send_all)
  show "listeners c' = listeners c" using c' by simp
  show all: "\<forall>ch. chans c' ch = chans c ch @ replicate (count_list (targets c event) ch) event"
    using send_all_Some [OF cs] c' by simp
  show "\<forall>ch \<in> set (targets c event). event \<in> set (chans c' ch)"
  proof
    fix ch assume "ch \<in> set (targets c event)"
    then have "count_list (targets c event) ch \<noteq> 0"
      by (simp add: count_list_0_iff)
    then have "0 < count_list (targets c event) ch" by simp
    with all show "event \<in> set (chans c' ch)" by auto
  qed
next
  assume "\<forall>ch \<in> set (targets c event).
            length (chans c ch) + count_list (targets c event) ch \<le> chan_cap"
  then have "send_all (targets c event) event (chans c) \<noteq> None"
    by (intro send_all_room) simp
  then show "notify event c \<noteq> None"
    by (simp add: notify_send_all)
qed

lemma targets0: "targets registry0 event0 = [0, 1, 2]"
  by (simp add: targets_def registry0_def event0_def listeners_of_def)

theorem notify_delivers_to_every_listener_witness:
  "notify event0 registry0 \<noteq> None
   \<and> chans (the (notify event0 registry0)) 0 = [event0]
   \<and> chans (the (notify event0 registry0)) 1 = [event0]
   \<and> chans (the (notify event0 registry0)) 2 = [event0]"
proof -
  have room: "\<forall>ch \<in> set (targets registry0 event0).
      length (chans registry0 ch) + count_list (targets registry0 event0) ch \<le> chan_cap"
    unfolding targets0 by (simp add: registry0_def chan_cap_def)
  with notify_delivers_to_every_listener [of event0 registry0 "the (notify event0 registry0)"]
  have ex: "notify event0 registry0 \<noteq> None" by blast
  then have "notify event0 registry0 = Some (the (notify event0 registry0))" by simp
  with notify_delivers_to_every_listener [of event0 registry0 "the (notify event0 registry0)"]
  have "\<forall>ch. chans (the (notify event0 registry0)) ch
           = chans registry0 ch @ replicate (count_list (targets registry0 event0) ch) event0"
    by blast
  then have "\<forall>ch. chans (the (notify event0 registry0)) ch
           = chans registry0 ch @ replicate (count_list [0, 1, 2] ch) event0"
    unfolding targets0 .
  with ex show ?thesis
    by (simp add: registry0_def)
qed

section \<open>Properties of subscription (addListener, deleteListener, listenTo)\<close>

lemma first_match_None: "first_match ch ls i = None \<longleftrightarrow> ch \<notin> set ls"
  by (induction ls arbitrary: i) auto

lemma first_match_Some:
  "first_match ch ls i = Some j \<Longrightarrow>
     i \<le> j \<and> take (j - i) ls @ drop (Suc (j - i)) ls = remove1 ch ls"
proof (induction ls arbitrary: i)
  case Nil
  then show ?case by simp
next
  case (Cons l ls)
  show ?case
  proof (cases "l = ch")
    case True
    with Cons.prems show ?thesis by simp
  next
    case False
    with Cons.prems have fm: "first_match ch ls (Suc i) = Some j" by simp
    from Cons.IH [OF fm] have le: "Suc i \<le> j"
      and eq: "take (j - Suc i) ls @ drop (Suc (j - Suc i)) ls = remove1 ch ls"
      by auto
    from le have "j - i = Suc (j - Suc i)" by simp
    with eq False le show ?thesis by simp
  qed
qed

lemma listeners_of_deleteListener:
  "listeners_of (listeners (deleteListener txid ch c)) k =
     (if k = txid then remove1 ch (listeners_of (listeners c) txid)
      else listeners_of (listeners c) k)"
proof (cases "listeners c txid")
  case None
  then show ?thesis by (simp add: deleteListener_def listeners_of_def)
next
  case (Some ls)
  show ?thesis
  proof (cases "first_match ch ls 0")
    case None
    then have "ch \<notin> set ls" by (simp add: first_match_None)
    then have "remove1 ch ls = ls" by (simp add: remove1_idem)
    with None Some show ?thesis by (simp add: deleteListener_def listeners_of_def)
  next
    case (Some j)
    from first_match_Some [OF Some]
    have "take j ls @ drop (Suc j) ls = remove1 ch ls" by simp
    with Some \<open>listeners c txid = Some ls\<close> show ?thesis
      by (simp add: deleteListener_def listeners_of_def)
  qed
qed

lemma deleteListener_absent:
  assumes absent: "ch \<notin> set (listeners_of (listeners c) txid)"
  shows "deleteListener txid ch c = c"
proof (cases "listeners c txid")
  case None
  then show ?thesis by (simp add: deleteListener_def)
next
  case (Some ls)
  with absent have "ch \<notin> set ls" by (simp add: listeners_of_def)
  then have "first_match ch ls 0 = None" by (simp add: first_match_None)
  with Some show ?thesis by (simp add: deleteListener_def)
qed

lemma deleteListener_fields:
  "next_chan (deleteListener txid ch c) = next_chan c"
  "calls (deleteListener txid ch c) = calls c"
  "chans (deleteListener txid ch c) = chans c"
  by (auto simp: deleteListener_def split: option.splits)

lemma listeners_of_addListener:
  "listeners_of (listeners (addListener txid ch c)) k =
     (if k = txid then listeners_of (listeners c) txid @ [ch]
      else listeners_of (listeners c) k)"
  by (auto simp: addListener_def listeners_of_def Let_def split: option.splits)

lemma listenTo_select_fields:
  "listeners (snd (listenTo_select E txid c)) = listeners c"
  "next_chan (snd (listenTo_select E txid c)) = next_chan c"
  "chans (snd (listenTo_select E txid c)) = chans c"
  by (auto simp: listenTo_select_def log_call_def Let_def
           split: selected.splits outcome.splits option.splits prod.splits)

lemma listeners_of_listenTo:
  assumes "next_chan_is_new txid c"
  shows "listeners_of (listeners (snd (listenTo E txid c))) k = listeners_of (listeners c) k"
proof -
  let ?ch = "next_chan c"
  let ?c1 = "snd (make_chan c)"
  let ?c2 = "addListener txid ?ch ?c1"
  let ?c3 = "snd (listenTo_select E txid ?c2)"
  have fresh: "?ch \<notin> set (listeners_of (listeners c) txid)"
    using assms by (simp add: next_chan_is_new_def)
  have l1: "listeners ?c1 = listeners c" by (simp add: make_chan_def)
  have snd_eq: "snd (listenTo E txid c) = deleteListener txid ?ch ?c3"
    by (simp add: listenTo_def make_chan_def split: prod.splits)
  have c3: "listeners_of (listeners ?c3) k' =
          (if k' = txid then listeners_of (listeners c) txid @ [?ch]
           else listeners_of (listeners c) k')" for k'
    by (simp add: listenTo_select_fields listeners_of_addListener l1)
  have "listeners_of (listeners (deleteListener txid ?ch ?c3)) k =
          (if k = txid then remove1 ?ch (listeners_of (listeners c) txid @ [?ch])
           else listeners_of (listeners c) k)"
    unfolding listeners_of_deleteListener c3 by simp
  also have "remove1 ?ch (listeners_of (listeners c) txid @ [?ch]) = listeners_of (listeners c) txid"
    using fresh by (simp add: remove1_append)
  finally show ?thesis unfolding snd_eq by simp
qed

lemma next_chan_listenTo: "next_chan (snd (listenTo E txid c)) = Suc (next_chan c)"
proof -
  have "snd (listenTo E txid c) =
          deleteListener txid (next_chan c)
            (snd (listenTo_select E txid (addListener txid (next_chan c) (snd (make_chan c)))))"
    by (simp add: listenTo_def make_chan_def split: prod.splits)
  then show ?thesis
    by (simp add: deleteListener_fields listenTo_select_fields addListener_def make_chan_def Let_def)
qed

text \<open>
  Claim C7. \<open>listenTo\<close> registers the channel it makes (a new one) at the end of the
  list of its transaction id, and whatever ends the call (an event, the timeout with any
  answer of the collaborators, a panic of a collaborator) the deferred \<open>deleteListener\<close>
  has run: every list of the registry is what it was before the call and the channel is
  not in the list of the id, so it was removed once and nothing else was removed.
  \<open>deleteListener\<close> removes the first occurrence of the channel in the list of the id
  and leaves the other lists alone; it changes nothing when the channel is not in that
  list or the id has no entry.
\<close>

theorem listener_removed_on_every_path:
  "(next_chan_is_new txid c \<longrightarrow>
      listeners_of (listeners (addListener txid (next_chan c) (snd (make_chan c)))) txid
        = listeners_of (listeners c) txid @ [next_chan c]
      \<and> (\<forall>k. listeners_of (listeners (snd (listenTo E txid c))) k = listeners_of (listeners c) k)
      \<and> next_chan c \<notin> set (listeners_of (listeners (snd (listenTo E txid c))) txid))
   \<and> (\<forall>k. listeners_of (listeners (deleteListener txid ch c)) k =
         (if k = txid then remove1 ch (listeners_of (listeners c) txid)
          else listeners_of (listeners c) k))
   \<and> (ch \<notin> set (listeners_of (listeners c) txid) \<longrightarrow> deleteListener txid ch c = c)
   \<and> (listeners c txid = None \<longrightarrow> deleteListener txid ch c = c)"
proof (intro conjI impI allI)
  assume ok: "next_chan_is_new txid c"
  show "listeners_of (listeners (addListener txid (next_chan c) (snd (make_chan c)))) txid
          = listeners_of (listeners c) txid @ [next_chan c]"
    by (simp add: listeners_of_addListener make_chan_def)
  show same: "listeners_of (listeners (snd (listenTo E txid c))) k = listeners_of (listeners c) k"
    for k by (rule listeners_of_listenTo [OF ok])
  show "next_chan c \<notin> set (listeners_of (listeners (snd (listenTo E txid c))) txid)"
    using ok by (simp add: same next_chan_is_new_def)
next
  show "listeners_of (listeners (deleteListener txid ch c)) k =
         (if k = txid then remove1 ch (listeners_of (listeners c) txid)
          else listeners_of (listeners c) k)" for k
    by (rule listeners_of_deleteListener)
next
  assume "ch \<notin> set (listeners_of (listeners c) txid)"
  then show "deleteListener txid ch c = c" by (rule deleteListener_absent)
next
  assume "listeners c txid = None"
  then show "deleteListener txid ch c = c" by (simp add: deleteListener_def)
qed

lemma registry0_new: "next_chan_is_new ''T'' registry0"
  by (simp add: next_chan_is_new_def registry0_def listeners_of_def)

theorem listener_removed_on_every_path_witness:
  "next_chan_is_new ''T'' registry0
   \<and> fst (listenTo env_panic ''T'' registry0) = Panic (PanicString ''vault closed'')
   \<and> listeners_of (listeners (snd (listenTo env_panic ''T'' registry0))) ''T'' = [0, 1]
   \<and> 3 \<notin> set (listeners_of (listeners (snd (listenTo env_panic ''T'' registry0))) ''T'')
   \<and> listeners_of (listeners (deleteListener ''T'' 0 registry0)) ''T'' = [1]
   \<and> deleteListener ''T'' 7 registry0 = registry0
   \<and> deleteListener ''X'' 0 registry0 = registry0"
proof -
  have r: "listeners_of (listeners registry0) ''T'' = [0, 1]" "next_chan registry0 = 3"
    "listeners registry0 ''X'' = None"
    by (simp_all add: registry0_def listeners_of_def)
  have p: "fst (listenTo env_panic ''T'' registry0) = Panic (PanicString ''vault closed'')"
    by (simp add: listenTo_def make_chan_def listenTo_select_def env_panic_def log_call_def
                  addListener_def registry0_def split: prod.splits)
  show ?thesis
    using registry0_new p r
      listener_removed_on_every_path [where c = registry0 and txid = "''T''" and E = env_panic and ch = 0]
      listener_removed_on_every_path [where c = registry0 and txid = "''T''" and E = env_panic and ch = 7]
      listener_removed_on_every_path [where c = registry0 and txid = "''X''" and E = env_panic and ch = 0]
    by simp
qed

section \<open>Properties of finality resolution\<close>

lemma for_deps_all_final:
  "all_final f ds c = Some c' \<Longrightarrow> for_deps f ds c = Some (Return None, c')"
  by (induction ds arbitrary: c) (auto split: option.splits prod.splits outcome.splits)

lemma for_deps_first_failure:
  "all_final f pre c = Some c1 \<Longrightarrow> f d c1 = Some (r, c2) \<Longrightarrow> r \<noteq> Return None
     \<Longrightarrow> for_deps f (pre @ d # post) c = Some (r, c2)"
proof (induction pre arbitrary: c)
  case Nil
  then show ?case by (cases r) (auto split: option.splits)
next
  case (Cons p pre)
  then show ?case by (auto split: option.splits prod.splits outcome.splits)
qed

lemma IsFinal_status:
  assumes "network_Committer E (length (calls c)) = Return None"
    and "Status E (Suc (length (calls c))) txid = Return (vd, deps, None)"
  shows "IsFinal (Suc n) E txid c =
     (case vd of
        Valid \<Rightarrow> Some (Return None, after_status_query txid c)
      | Invalid \<Rightarrow> Some (Return (Some (ErrNotValid txid)), after_status_query txid c)
      | Busy \<Rightarrow>
          (if deps \<noteq> [] then for_deps (IsFinal n E) deps (after_status_query txid c)
           else Some (listenTo E txid (after_status_query txid c)))
      | HasDependencies \<Rightarrow>
          (if deps \<noteq> [] then for_deps (IsFinal n E) deps (after_status_query txid c)
           else Some (call_finality E txid (after_status_query txid c)))
      | Unknown \<Rightarrow> Some (call_finality E txid (after_status_query txid c))
      | OtherCode k \<Rightarrow> Some (Panic (PanicString ''invalid status code''), after_status_query txid c))"
  using assms by (cases vd) (simp_all add: IsFinal.simps(2) after_status_query_def log_call_def Let_def)

lemma for_deps_mono:
  assumes "\<And>d c r. f d c = Some r \<Longrightarrow> g d c = Some r"
  shows "for_deps f ds c = Some r \<Longrightarrow> for_deps g ds c = Some r"
proof (induction ds arbitrary: c)
  case Nil
  then show ?case by simp
next
  case (Cons d ds)
  from Cons.prems obtain r1 where f: "f d c = Some r1"
    by (auto split: option.splits)
  then have g: "g d c = Some r1" by (rule assms)
  show ?case
    using Cons.prems Cons.IH f g
    by (auto split: option.splits prod.splits outcome.splits)
qed

lemma IsFinal_Suc: "IsFinal n E txid c = Some r \<Longrightarrow> IsFinal (Suc n) E txid c = Some r"
proof (induction n arbitrary: txid c r)
  case 0
  then show ?case by (simp add: IsFinal.simps(1))
next
  case (Suc n)
  have deps: "for_deps (\<lambda>d c'. IsFinal n E d c') ds c' = Some r'
      \<Longrightarrow> for_deps (\<lambda>d c'. IsFinal (Suc n) E d c') ds c' = Some r'" for ds c' r'
    by (rule for_deps_mono [where f = "\<lambda>d c'. IsFinal n E d c'"]) (auto intro: Suc.IH)
  show ?case
    using Suc.prems
    apply (subst IsFinal.simps(2))
    apply (subst (asm) IsFinal.simps(2))
    apply (auto simp: Let_def split: outcome.splits option.splits prod.splits ValidationCode.splits if_splits
                intro: deps)
    done
qed

lemma IsFinal_more_fuel: "IsFinal n E txid c = Some r \<Longrightarrow> IsFinal (n + k) E txid c = Some r"
  by (induction k) (auto intro: IsFinal_Suc)

text \<open>
  Claim C2. When the lookup of the committer and the first status query succeed: status
  Valid makes \<open>IsFinal\<close> return nil, status Invalid makes it return the error
  \<open>transaction [txid] is not valid\<close>, and then no run of \<open>IsFinal\<close> (whatever the depth
  allowed to the recursion) returns nil.
\<close>

theorem IsFinal_valid_invalid:
  assumes "network_Committer E (length (calls c)) = Return None"
    and "Status E (Suc (length (calls c))) txid = Return (vd, deps, None)"
  shows "(vd = Valid \<longrightarrow> IsFinal (Suc n) E txid c = Some (Return None, after_status_query txid c))
       \<and> (vd = Invalid \<longrightarrow>
            IsFinal (Suc n) E txid c = Some (Return (Some (ErrNotValid txid)), after_status_query txid c)
            \<and> (\<forall>m c'. IsFinal m E txid c \<noteq> Some (Return None, c')))"
proof (intro conjI impI allI)
  assume "vd = Valid"
  then show "IsFinal (Suc n) E txid c = Some (Return None, after_status_query txid c)"
    using IsFinal_status [OF assms, of n] by simp
next
  assume inv: "vd = Invalid"
  then show "IsFinal (Suc n) E txid c = Some (Return (Some (ErrNotValid txid)), after_status_query txid c)"
    using IsFinal_status [OF assms, of n] by simp
  fix m c'
  show "IsFinal m E txid c \<noteq> Some (Return None, c')"
  proof (cases m)
    case 0
    then show ?thesis by (simp add: IsFinal.simps(1))
  next
    case (Suc k)
    then show ?thesis using IsFinal_status [OF assms, of k] inv by simp
  qed
qed

theorem IsFinal_valid_invalid_witness:
  "IsFinal 1 (env_of TimedOut (Return None) status_valid (Return None)) ''T'' registry0
     = Some (Return None, after_status_query ''T'' registry0)
   \<and> IsFinal 1 (env_of TimedOut (Return None) status_invalid (Return None)) ''T'' registry0
     = Some (Return (Some (ErrNotValid ''T'')), after_status_query ''T'' registry0)
   \<and> IsFinal 5 (env_of TimedOut (Return None) status_invalid (Return None)) ''T'' registry0
     \<noteq> Some (Return None, registry0)"
proof -
  let ?V = "env_of TimedOut (Return None) status_valid (Return None)"
  let ?I = "env_of TimedOut (Return None) status_invalid (Return None)"
  have v: "network_Committer ?V (length (calls registry0)) = Return None"
    "Status ?V (Suc (length (calls registry0))) ''T'' = Return (Valid, [], None)"
    by (simp_all add: env_of_def status_valid_def)
  have i: "network_Committer ?I (length (calls registry0)) = Return None"
    "Status ?I (Suc (length (calls registry0))) ''T'' = Return (Invalid, [], None)"
    by (simp_all add: env_of_def status_invalid_def)
  show ?thesis
    using IsFinal_valid_invalid [OF v, of 0] IsFinal_valid_invalid [OF i, of 0]
    by simp
qed

text \<open>
  Claim C3. When the first status query reports Busy or HasDependencies with a non-empty
  list of dependencies, \<open>IsFinal\<close> resolves the dependencies in the order of the list,
  each by a recursive call on the state its predecessor left. If the dependencies before
  \<open>d\<close> resolve to nil and \<open>d\<close> resolves to an error, that error is the result and the
  state is the one \<open>d\<close> left: nothing is asked about the dependencies after \<open>d\<close>. If all
  resolve to nil the result is nil and the state is the one the last dependency left:
  the status of the transaction itself is not queried again. Allowing the recursion more
  depth does not change a result.
\<close>

theorem IsFinal_dependencies_in_order:
  assumes "network_Committer E (length (calls c)) = Return None"
    and "Status E (Suc (length (calls c))) txid = Return (vd, deps, None)"
    and "vd = Busy \<or> vd = HasDependencies"
    and "deps \<noteq> []"
  shows "(\<forall>pre d post e c1 c2.
            deps = pre @ d # post
            \<and> all_final (IsFinal n E) pre (after_status_query txid c) = Some c1
            \<and> IsFinal n E d c1 = Some (Return (Some e), c2)
            \<longrightarrow> IsFinal (Suc n) E txid c = Some (Return (Some e), c2))
       \<and> (\<forall>c1. all_final (IsFinal n E) deps (after_status_query txid c) = Some c1
            \<longrightarrow> IsFinal (Suc n) E txid c = Some (Return None, c1))
       \<and> (\<forall>r k. IsFinal (Suc n) E txid c = Some r \<longrightarrow> IsFinal (Suc n + k) E txid c = Some r)"
proof -
  have unfold: "IsFinal (Suc n) E txid c = for_deps (IsFinal n E) deps (after_status_query txid c)"
    using IsFinal_status [OF assms(1,2), of n] assms(3,4) by auto
  show ?thesis
  proof (intro conjI allI impI)
    fix pre d post e c1 c2
    assume h: "deps = pre @ d # post
      \<and> all_final (IsFinal n E) pre (after_status_query txid c) = Some c1
      \<and> IsFinal n E d c1 = Some (Return (Some e), c2)"
    then have "for_deps (IsFinal n E) (pre @ d # post) (after_status_query txid c)
                 = Some (Return (Some e), c2)"
      by (intro for_deps_first_failure [where ?c1.0 = c1]) simp_all
    with h show "IsFinal (Suc n) E txid c = Some (Return (Some e), c2)"
      by (simp add: unfold)
  next
    fix c1
    assume "all_final (IsFinal n E) deps (after_status_query txid c) = Some c1"
    then show "IsFinal (Suc n) E txid c = Some (Return None, c1)"
      by (simp add: unfold for_deps_all_final)
  next
    fix r k
    assume "IsFinal (Suc n) E txid c = Some r"
    then show "IsFinal (Suc n + k) E txid c = Some r"
      by (rule IsFinal_more_fuel)
  qed
qed

lemma run_deps_fail:
  "IsFinal 1 (env_of TimedOut (Return None) status_deps_fail (Return None)) ''B''
      (after_status_query ''A'' registry0)
     = Some (Return (Some (ErrNotValid ''B'')),
             after_status_query ''B'' (after_status_query ''A'' registry0))"
  by (simp add: IsFinal.simps(2) env_of_def status_deps_fail_def after_status_query_def
                log_call_def Let_def)

lemma run_deps_ok:
  "all_final (IsFinal 1 (env_of TimedOut (Return None) status_deps_ok (Return None))) [''B'', ''C'']
      (after_status_query ''A'' registry0)
     = Some (after_status_query ''C'' (after_status_query ''B'' (after_status_query ''A'' registry0)))"
  by (simp add: IsFinal.simps(2) env_of_def status_deps_ok_def after_status_query_def
                log_call_def Let_def)

theorem IsFinal_dependencies_in_order_witness:
  "IsFinal 2 (env_of TimedOut (Return None) status_deps_fail (Return None)) ''A'' registry0
     = Some (Return (Some (ErrNotValid ''B'')),
             after_status_query ''B'' (after_status_query ''A'' registry0))
   \<and> IsFinal 2 (env_of TimedOut (Return None) status_deps_ok (Return None)) ''A'' registry0
     = Some (Return None,
             after_status_query ''C'' (after_status_query ''B'' (after_status_query ''A'' registry0)))
   \<and> IsFinal 7 (env_of TimedOut (Return None) status_deps_ok (Return None)) ''A'' registry0
     = Some (Return None,
             after_status_query ''C'' (after_status_query ''B'' (after_status_query ''A'' registry0)))
   \<and> calls (after_status_query ''B'' (after_status_query ''A'' registry0))
     = [CallCommitter ''ch'', CallStatus ''A'', CallCommitter ''ch'', CallStatus ''B'']
   \<and> calls (after_status_query ''C'' (after_status_query ''B'' (after_status_query ''A'' registry0)))
     = [CallCommitter ''ch'', CallStatus ''A'', CallCommitter ''ch'', CallStatus ''B'',
        CallCommitter ''ch'', CallStatus ''C'']"
proof -
  let ?F = "env_of TimedOut (Return None) status_deps_fail (Return None)"
  let ?K = "env_of TimedOut (Return None) status_deps_ok (Return None)"
  have f: "network_Committer ?F (length (calls registry0)) = Return None"
    "Status ?F (Suc (length (calls registry0))) ''A'' = Return (Busy, [''B'', ''C''], None)"
    "Busy = Busy \<or> Busy = HasDependencies" "[''B'', ''C''] \<noteq> []"
    by (simp_all add: env_of_def status_deps_fail_def)
  have k: "network_Committer ?K (length (calls registry0)) = Return None"
    "Status ?K (Suc (length (calls registry0))) ''A'' = Return (Busy, [''B'', ''C''], None)"
    by (simp_all add: env_of_def status_deps_ok_def)
  have pre: "all_final (IsFinal 1 ?F) [] (after_status_query ''A'' registry0)
               = Some (after_status_query ''A'' registry0)"
    by simp
  have two: "(2::nat) = Suc 1" "(7::nat) = Suc 1 + 5" by simp_all
  from IsFinal_dependencies_in_order [OF f, of 1] pre run_deps_fail
  have a: "IsFinal (Suc 1) ?F ''A'' registry0
     = Some (Return (Some (ErrNotValid ''B'')),
             after_status_query ''B'' (after_status_query ''A'' registry0))"
    by (metis append_Nil)
  from IsFinal_dependencies_in_order [OF k f(3,4), of 1] run_deps_ok
  have b: "IsFinal (Suc 1) ?K ''A'' registry0
     = Some (Return None,
             after_status_query ''C'' (after_status_query ''B'' (after_status_query ''A'' registry0)))"
    by blast
  from IsFinal_dependencies_in_order [OF k f(3,4), of 1] b
  have c: "IsFinal (Suc 1 + 5) ?K ''A'' registry0
     = Some (Return None,
             after_status_query ''C'' (after_status_query ''B'' (after_status_query ''A'' registry0)))"
    by blast
  have d: "calls (after_status_query ''B'' (after_status_query ''A'' registry0))
     = [CallCommitter ''ch'', CallStatus ''A'', CallCommitter ''ch'', CallStatus ''B'']"
    by (simp add: after_status_query_def log_call_def registry0_def)
  have e: "calls (after_status_query ''C'' (after_status_query ''B'' (after_status_query ''A'' registry0)))
     = [CallCommitter ''ch'', CallStatus ''A'', CallCommitter ''ch'', CallStatus ''B'',
        CallCommitter ''ch'', CallStatus ''C'']"
    by (simp add: after_status_query_def log_call_def registry0_def)
  show ?thesis
    unfolding two using a b c d e by blast
qed

text \<open>
  Claim C4, as the code has it. With status Unknown, and with status HasDependencies and
  no dependencies, \<open>IsFinal\<close> returns what the finality service
  \<open>c.finality.IsFinal(txid, address)\<close> answers; the registry, the channels and the
  channel counter are as before, so nothing was subscribed. It is status Busy with no
  dependencies that falls through to \<open>listenTo\<close>: a new channel is registered under the
  id, the \<open>select\<close> runs on the registry that holds it, and the channel is deleted from
  the registry on return.
\<close>

theorem IsFinal_unknown_asks_finality_service:
  assumes "network_Committer E (length (calls c)) = Return None"
    and "Status E (Suc (length (calls c))) txid = Return (vd, deps, None)"
  shows "(vd = Unknown \<or> (vd = HasDependencies \<and> deps = []) \<longrightarrow>
            (\<exists>c'. IsFinal (Suc n) E txid c
                     = Some (finality_IsFinal E (Suc (Suc (length (calls c)))) txid (peerAddress c), c')
                  \<and> listeners c' = listeners c \<and> chans c' = chans c \<and> next_chan c' = next_chan c
                  \<and> calls c' = calls c @ [CallCommitter (channel c), CallStatus txid,
                                           CallFinality txid (peerAddress c)]))
       \<and> (vd = Busy \<and> deps = [] \<longrightarrow>
            IsFinal (Suc n) E txid c = Some (listenTo E txid (after_status_query txid c))
            \<and> listeners_of (listeners
                  (addListener txid (next_chan c) (snd (make_chan (after_status_query txid c))))) txid
                = listeners_of (listeners c) txid @ [next_chan c]
            \<and> (next_chan_is_new txid c \<longrightarrow>
                  (\<forall>k. listeners_of (listeners (snd (listenTo E txid (after_status_query txid c)))) k
                         = listeners_of (listeners c) k)))"
proof (intro conjI impI)
  assume h: "vd = Unknown \<or> (vd = HasDependencies \<and> deps = [])"
  let ?c' = "log_call (CallFinality txid (peerAddress c)) (after_status_query txid c)"
  from h have "IsFinal (Suc n) E txid c = Some (call_finality E txid (after_status_query txid c))"
    using IsFinal_status [OF assms, of n] by auto
  then have "IsFinal (Suc n) E txid c
               = Some (finality_IsFinal E (Suc (Suc (length (calls c)))) txid (peerAddress c), ?c')"
    by (simp add: call_finality_def after_status_query_def log_call_def)
  moreover have "listeners ?c' = listeners c" "chans ?c' = chans c" "next_chan ?c' = next_chan c"
    "calls ?c' = calls c @ [CallCommitter (channel c), CallStatus txid,
                            CallFinality txid (peerAddress c)]"
    by (simp_all add: after_status_query_def log_call_def)
  ultimately show "\<exists>c'. IsFinal (Suc n) E txid c
                     = Some (finality_IsFinal E (Suc (Suc (length (calls c)))) txid (peerAddress c), c')
                  \<and> listeners c' = listeners c \<and> chans c' = chans c \<and> next_chan c' = next_chan c
                  \<and> calls c' = calls c @ [CallCommitter (channel c), CallStatus txid,
                                           CallFinality txid (peerAddress c)]"
    by blast
next
  assume h: "vd = Busy \<and> deps = []"
  then show "IsFinal (Suc n) E txid c = Some (listenTo E txid (after_status_query txid c))"
    using IsFinal_status [OF assms, of n] by auto
  show "listeners_of (listeners
            (addListener txid (next_chan c) (snd (make_chan (after_status_query txid c))))) txid
          = listeners_of (listeners c) txid @ [next_chan c]"
    by (simp add: listeners_of_addListener make_chan_def after_status_query_def log_call_def)
  assume ok: "next_chan_is_new txid c"
  then have ok2: "next_chan_is_new txid (after_status_query txid c)"
    by (simp add: next_chan_is_new_def after_status_query_def log_call_def)
  show "\<forall>k. listeners_of (listeners (snd (listenTo E txid (after_status_query txid c)))) k
               = listeners_of (listeners c) k"
    using listeners_of_listenTo [OF ok2, where E = E]
    by (simp add: after_status_query_def log_call_def)
qed

theorem IsFinal_unknown_asks_finality_service_witness:
  "(\<exists>c'. IsFinal 1 (env_of TimedOut (Return None) status_unknown (Return None)) ''T'' registry0
           = Some (Return None, c') \<and> next_chan c' = 3)
   \<and> (\<exists>c'. IsFinal 1 (env_of TimedOut (Return None) status_hasdeps (Return None)) ''T'' registry0
           = Some (Return None, c') \<and> next_chan c' = 3)
   \<and> IsFinal 1 (env_of (Received failed_event) (Return None) status_busy (Return None)) ''T'' registry0
       = Some (listenTo (env_of (Received failed_event) (Return None) status_busy (Return None)) ''T''
                 (after_status_query ''T'' registry0))
   \<and> listeners_of (listeners (snd (listenTo
         (env_of (Received failed_event) (Return None) status_busy (Return None)) ''T''
         (after_status_query ''T'' registry0)))) ''T'' = [0, 1]"
proof -
  let ?U = "env_of TimedOut (Return None) status_unknown (Return None)"
  let ?H = "env_of TimedOut (Return None) status_hasdeps (Return None)"
  let ?B = "env_of (Received failed_event) (Return None) status_busy (Return None)"
  have u: "network_Committer ?U (length (calls registry0)) = Return None"
    "Status ?U (Suc (length (calls registry0))) ''T'' = Return (Unknown, [], None)"
    by (simp_all add: env_of_def status_unknown_def)
  have h: "network_Committer ?H (length (calls registry0)) = Return None"
    "Status ?H (Suc (length (calls registry0))) ''T'' = Return (HasDependencies, [], None)"
    by (simp_all add: env_of_def status_hasdeps_def)
  have b: "network_Committer ?B (length (calls registry0)) = Return None"
    "Status ?B (Suc (length (calls registry0))) ''T'' = Return (Busy, [], None)"
    by (simp_all add: env_of_def status_busy_def)
  have fin: "finality_IsFinal ?U t ''T'' a = Return None" "finality_IsFinal ?H t ''T'' a = Return None"
    for t a by (simp_all add: env_of_def)
  have r: "next_chan registry0 = 3" "listeners_of (listeners registry0) ''T'' = [0, 1]"
    by (simp_all add: registry0_def listeners_of_def)
  show ?thesis
    using IsFinal_unknown_asks_finality_service [OF u, of 0]
      IsFinal_unknown_asks_finality_service [OF h, of 0]
      IsFinal_unknown_asks_finality_service [OF b, of 0]
      registry0_new
    by (simp add: fin r) blast
qed

text \<open>
  The claim as it was stated fails: with status Unknown and a finality service that
  answers nil, \<open>IsFinal\<close> returns nil, makes no channel and leaves the registry alone,
  although the same collaborators would hand a failed event to a listener, which
  \<open>listenTo\<close> would return after making channel 3.
\<close>

theorem IsFinal_unknown_counterexample:
  "IsFinal 1 (env_of (Received failed_event) (Return None) status_unknown (Return None)) ''T'' registry0
     = Some (Return None,
             log_call (CallFinality ''T'' ''peer0'') (after_status_query ''T'' registry0))
   \<and> next_chan (log_call (CallFinality ''T'' ''peer0'') (after_status_query ''T'' registry0)) = 3
   \<and> listeners (log_call (CallFinality ''T'' ''peer0'') (after_status_query ''T'' registry0))
       = listeners registry0
   \<and> fst (listenTo (env_of (Received failed_event) (Return None) status_unknown (Return None)) ''T''
             (after_status_query ''T'' registry0))
       = Return (Some (ErrExternal ''mvcc conflict''))
   \<and> next_chan (snd (listenTo (env_of (Received failed_event) (Return None) status_unknown (Return None))
             ''T'' (after_status_query ''T'' registry0))) = 4"
proof -
  let ?E = "env_of (Received failed_event) (Return None) status_unknown (Return None)"
  have 1: "IsFinal 1 ?E ''T'' registry0
     = Some (Return None,
             log_call (CallFinality ''T'' ''peer0'') (after_status_query ''T'' registry0))"
    by (simp add: IsFinal.simps(2) env_of_def status_unknown_def call_finality_def
                  after_status_query_def log_call_def registry0_def)
  have 2: "next_chan (log_call (CallFinality ''T'' ''peer0'') (after_status_query ''T'' registry0)) = 3"
    "listeners (log_call (CallFinality ''T'' ''peer0'') (after_status_query ''T'' registry0))
       = listeners registry0"
    by (simp_all add: after_status_query_def log_call_def registry0_def)
  have 3: "fst (listenTo ?E ''T'' (after_status_query ''T'' registry0))
       = Return (Some (ErrExternal ''mvcc conflict''))"
    by (simp add: listenTo_def make_chan_def listenTo_select_def env_of_def failed_event_def
                  split: prod.splits)
  have 4: "next_chan (snd (listenTo ?E ''T'' (after_status_query ''T'' registry0))) = 4"
    by (simp add: next_chan_listenTo after_status_query_def log_call_def registry0_def)
  from 1 2 3 4 show ?thesis by blast
qed

lemma listenTo_unfold:
  "listenTo E txid c =
     (fst (listenTo_select E txid (addListener txid (next_chan c) (snd (make_chan c)))),
      deleteListener txid (next_chan c)
        (snd (listenTo_select E txid (addListener txid (next_chan c) (snd (make_chan c))))))"
  by (simp add: listenTo_def make_chan_def split: prod.splits)

text \<open>
  Claim C5, as the code has it. In \<open>listenTo\<close>, an event that arrives before the timeout
  makes the call return the \<open>Err\<close> field of the event, with no call to a collaborator.
  When the timeout fires and the lookup of the committer succeeds, the status is queried
  once: a successful query with status Valid gives nil, with status Invalid the error
  \<open>transaction [txid] is not valid\<close>, and anything else the timeout error that carries the
  error of the query and the status. When the timeout fires and the lookup of the
  committer fails, the error of the lookup is returned and the status is not queried.
\<close>

theorem listenTo_event_or_timeout:
  "(select E (length (calls c)) txid = Received event \<longrightarrow>
      fst (listenTo E txid c) = Return (Err event)
      \<and> calls (snd (listenTo E txid c)) = calls c)
   \<and> (select E (length (calls c)) txid = TimedOut
        \<and> network_Committer E (length (calls c)) = Return None
        \<and> Status E (Suc (length (calls c))) txid = Return (vd, deps, err) \<longrightarrow>
      calls (snd (listenTo E txid c)) = calls c @ [CallCommitter (channel c), CallStatus txid]
      \<and> (err = None \<and> vd = Valid \<longrightarrow> fst (listenTo E txid c) = Return None)
      \<and> (err = None \<and> vd = Invalid \<longrightarrow>
            fst (listenTo E txid c) = Return (Some (ErrNotValid txid)))
      \<and> (\<not> (err = None \<and> (vd = Valid \<or> vd = Invalid)) \<longrightarrow>
            fst (listenTo E txid c) = Return (Some (ErrListenTimeout txid err vd))))
   \<and> (select E (length (calls c)) txid = TimedOut
        \<and> network_Committer E (length (calls c)) = Return (Some e) \<longrightarrow>
      fst (listenTo E txid c) = Return (Some e)
      \<and> calls (snd (listenTo E txid c)) = calls c @ [CallCommitter (channel c)])"
proof -
  let ?w = "addListener txid (next_chan c) (snd (make_chan c))"
  have w: "calls ?w = calls c" "channel ?w = channel c"
    by (simp_all add: addListener_def make_chan_def Let_def)
  have l: "listenTo E txid c =
             (fst (listenTo_select E txid ?w),
              deleteListener txid (next_chan c) (snd (listenTo_select E txid ?w)))"
    by (rule listenTo_unfold)
  have f: "fst (listenTo E txid c) = fst (listenTo_select E txid ?w)"
    and s: "calls (snd (listenTo E txid c)) = calls (snd (listenTo_select E txid ?w))"
    by (simp_all add: l deleteListener_fields)
  show ?thesis
    unfolding f s
    by (auto simp: listenTo_select_def w log_call_def Let_def)
qed


theorem listenTo_event_or_timeout_witness:
  "fst (listenTo (env_of (Received failed_event) (Return None) status_valid (Return None)) ''T'' registry0)
     = Return (Some (ErrExternal ''mvcc conflict''))
   \<and> fst (listenTo (env_of TimedOut (Return None) status_valid (Return None)) ''T'' registry0)
     = Return None
   \<and> calls (snd (listenTo (env_of TimedOut (Return None) status_valid (Return None)) ''T'' registry0))
     = [CallCommitter ''ch'', CallStatus ''T'']
   \<and> fst (listenTo (env_of TimedOut (Return None) status_invalid (Return None)) ''T'' registry0)
     = Return (Some (ErrNotValid ''T''))
   \<and> fst (listenTo (env_of TimedOut (Return None) status_busy (Return None)) ''T'' registry0)
     = Return (Some (ErrListenTimeout ''T'' None Busy))
   \<and> fst (listenTo (env_of TimedOut (Return (Some (ErrExternal ''no committer''))) status_valid
              (Return None)) ''T'' registry0)
     = Return (Some (ErrExternal ''no committer''))"
proof -
  let ?R = "env_of (Received failed_event) (Return None) status_valid (Return None)"
  let ?V = "env_of TimedOut (Return None) status_valid (Return None)"
  let ?I = "env_of TimedOut (Return None) status_invalid (Return None)"
  let ?B = "env_of TimedOut (Return None) status_busy (Return None)"
  let ?N = "env_of TimedOut (Return (Some (ErrExternal ''no committer''))) status_valid (Return None)"
  have sel: "select ?R n ''T'' = Received failed_event"
    "select ?V n ''T'' = TimedOut" "select ?I n ''T'' = TimedOut"
    "select ?B n ''T'' = TimedOut" "select ?N n ''T'' = TimedOut" for n
    by (simp_all add: env_of_def)
  have look: "network_Committer ?V n = Return None"
    "network_Committer ?I n = Return None"
    "network_Committer ?B n = Return None"
    "network_Committer ?N n = Return (Some (ErrExternal ''no committer''))" for n
    by (simp_all add: env_of_def)
  have st: "Status ?V n ''T'' = Return (Valid, [], None)"
    "Status ?I n ''T'' = Return (Invalid, [], None)"
    "Status ?B n ''T'' = Return (Busy, [], None)" for n
    by (simp_all add: env_of_def status_valid_def status_invalid_def status_busy_def)
  have r: "calls registry0 = []" "channel registry0 = ''ch''"
    "Err failed_event = Some (ErrExternal ''mvcc conflict'')"
    by (simp_all add: registry0_def failed_event_def)
  show ?thesis
    using listenTo_event_or_timeout [of ?R registry0 "''T''" failed_event Valid "[]" None undefined]
      listenTo_event_or_timeout [of ?V registry0 "''T''" failed_event Valid "[]" None undefined]
      listenTo_event_or_timeout [of ?I registry0 "''T''" failed_event Invalid "[]" None undefined]
      listenTo_event_or_timeout [of ?B registry0 "''T''" failed_event Busy "[]" None undefined]
      listenTo_event_or_timeout [of ?N registry0 "''T''" failed_event Valid "[]" None
                                    "ErrExternal ''no committer''"]
    unfolding sel look st r
    by simp
qed

text \<open>
  The claim as it was stated fails when the timeout fires and the lookup of the committer
  fails: the status oracle is not queried at all, and the error returned is the error of
  the lookup, not the timeout error.
\<close>

theorem listenTo_timeout_counterexample:
  "fst (listenTo (env_of TimedOut (Return (Some (ErrExternal ''no committer''))) status_valid
          (Return None)) ''T'' registry0)
     = Return (Some (ErrExternal ''no committer''))
   \<and> calls (snd (listenTo (env_of TimedOut (Return (Some (ErrExternal ''no committer''))) status_valid
          (Return None)) ''T'' registry0))
     = [CallCommitter ''ch'']"
proof -
  have a: "select (env_of TimedOut (Return (Some (ErrExternal ''no committer''))) status_valid (Return None))
             n t = TimedOut"
    "network_Committer (env_of TimedOut (Return (Some (ErrExternal ''no committer''))) status_valid
             (Return None)) n = Return (Some (ErrExternal ''no committer''))" for n t
    by (simp_all add: env_of_def)
  have c: "channel (addListener ''T'' 3 (snd (make_chan registry0))) = ''ch''"
    "calls (addListener ''T'' 3 (snd (make_chan registry0))) = []"
    "next_chan registry0 = 3"
    by (simp_all add: addListener_def make_chan_def Let_def registry0_def)
  have "listenTo_select (env_of TimedOut (Return (Some (ErrExternal ''no committer''))) status_valid
            (Return None)) ''T'' (addListener ''T'' 3 (snd (make_chan registry0)))
          = (Return (Some (ErrExternal ''no committer'')),
             log_call (CallCommitter ''ch'') (addListener ''T'' 3 (snd (make_chan registry0))))"
    by (simp add: listenTo_select_def a c Let_def)
  then show ?thesis
    by (simp add: listenTo_unfold c deleteListener_fields log_call_def)
qed

section \<open>Properties of block processing\<close>

text \<open>
  Claim C8. \<open>Commit\<close> guards the call of \<open>handleEndorserTransaction\<close> by
  \<open>len(block.Metadata.Metadata) < int(BlockMetadataIndex_TRANSACTIONS_FILTER)\<close>, that is by
  a length below 2, while the transaction filter is the entry at index 2. On a block
  whose metadata has two entries the filter is absent and the guard lets the block
  through: \<open>Commit\<close> calls the handler, and ends with the panic of the handler, or, if the
  handler returns, notifies the event and returns nil. It returns the error
  \<open>block metadata lacks transaction filter\<close> only when the metadata has fewer than two
  entries.
\<close>

theorem Commit_filter_guard_off_by_one:
  "Commit (commit_env0 (Panic index_out_of_range)) block_no_filter registry0
     = Some (Panic index_out_of_range, log_call (CallHandleEndorser 0) registry0)
   \<and> fst (the (Commit (commit_env0 (Return valid_event)) block_no_filter registry0)) = Return None
   \<and> chans (snd (the (Commit (commit_env0 (Return valid_event)) block_no_filter registry0))) 0
       = [valid_event]
   \<and> Commit (commit_env0 (Return valid_event)) block_short registry0
       = Some (Return (Some ErrLacksFilter), registry0)"
proof -
  have sw: "Commit_switch (commit_env0 h) block_no_filter 0 \<lparr>env_Payload = ''T''\<rparr>
              \<lparr>chdr_Type = 3, chdr_TxId = ''T''\<rparr> registry0
            = (case h of Panic p \<Rightarrow> (Inl (Panic p), log_call (CallHandleEndorser 0) registry0)
               | Return event \<Rightarrow> (Inr event, log_call (CallHandleEndorser 0) registry0))" for h
    by (simp add: Commit_switch_def commit_env0_def block_no_filter_def HeaderType_CONFIG_def
                  HeaderType_ENDORSER_TRANSACTION_def BlockMetadataIndex_TRANSACTIONS_FILTER_def)
  have sw1: "Commit_switch (commit_env0 h) block_short 0 \<lparr>env_Payload = ''T''\<rparr>
              \<lparr>chdr_Type = 3, chdr_TxId = ''T''\<rparr> registry0
            = (Inl (Return (Some ErrLacksFilter)), registry0)" for h
    by (simp add: Commit_switch_def commit_env0_def block_short_def HeaderType_CONFIG_def
                  HeaderType_ENDORSER_TRANSACTION_def BlockMetadataIndex_TRANSACTIONS_FILTER_def)
  have dec: "UnmarshalEnvelope (commit_env0 h) ''T'' = Inr \<lparr>env_Payload = ''T''\<rparr>"
    "UnmarshalPayload (commit_env0 h) ''T'' = Inr \<lparr>Header_ChannelHeader = Some ''T''\<rparr>"
    "UnmarshalChannelHeader (commit_env0 h) ''T'' = Inr \<lparr>chdr_Type = 3, chdr_TxId = ''T''\<rparr>" for h
    by (simp_all add: commit_env0_def)
  have n: "notify valid_event (log_call (CallHandleEndorser 0) registry0)
             = Some ((log_call (CallHandleEndorser 0) registry0)
                      \<lparr>chans := (\<lambda>_. [])(0 := [valid_event], 1 := [valid_event])\<rparr>)"
    by (simp add: notify_def send_def chan_cap_def listeners_of_def log_call_def registry0_def
                  valid_event_def)
  have 1: "Commit (commit_env0 (Panic index_out_of_range)) block_no_filter registry0
     = Some (Panic index_out_of_range, log_call (CallHandleEndorser 0) registry0)"
    by (simp add: Commit_def block_no_filter_def [THEN arg_cong, of Data_Data] dec sw)
  have 2: "Commit (commit_env0 (Return valid_event)) block_no_filter registry0
     = Some (Return None, (log_call (CallHandleEndorser 0) registry0)
                      \<lparr>chans := (\<lambda>_. [])(0 := [valid_event], 1 := [valid_event])\<rparr>)"
    by (simp add: Commit_def block_no_filter_def [THEN arg_cong, of Data_Data] dec sw n)
  have 3: "Commit (commit_env0 (Return valid_event)) block_short registry0
       = Some (Return (Some ErrLacksFilter), registry0)"
    by (simp add: Commit_def block_short_def [THEN arg_cong, of Data_Data] dec sw1)
  show ?thesis
    by (simp add: 1 2 3)
qed

section \<open>Properties of RunView\<close>






section \<open>Properties of endorsement collection\<close>

lemma for_responses_success:
  "for_responses E vProviders res party rs found t = (None, found', t') \<longleftrightarrow>
     (\<exists>prs. parse_all E rs = Some prs
        \<and> list_all (response_ok E vProviders res) prs
        \<and> append_all E prs t = Some t'
        \<and> found' = (found \<or> list_ex (\<lambda>pr. IsBoundTo E (Endorser pr) party) prs))"
proof (induction rs arbitrary: found t)
  case Nil
  then show ?case by auto
next
  case (Cons r rs)
  show ?case
  proof (cases "NewProposalResponseFromBytes E r")
    case (Inl err)
    then show ?thesis by simp
  next
    case (Inr pr)
    show ?thesis
    proof (cases "response_ok E vProviders res pr")
      case False
      then show ?thesis
        using Inr
        by (auto simp: response_ok_def Let_def split: sum.splits option.splits)
    next
      case True
      then obtain verifier where v: "get_verifier E vProviders (Endorser pr) = Inr verifier"
        and sig: "verifier (pr_Payload pr @ Endorser pr) (EndorserSignature pr) = None"
        and res: "Results pr = res"
        by (auto simp: response_ok_def split: sum.splits)
      show ?thesis
      proof (cases "AppendProposalResponse E pr t")
        case (Pair e t1)
        show ?thesis
        proof (cases e)
          case (Some err)
          with Pair Inr v sig res show ?thesis
            by (auto simp: Let_def split: option.splits)
        next
          case None
          have step: "for_responses E vProviders res party (r # rs) found t
                  = for_responses E vProviders res party rs
                      (if IsBoundTo E (Endorser pr) party then True else found) t1"
            using Pair None Inr v sig res by (simp add: Let_def)
          show ?thesis
            unfolding step Cons.IH
            using Pair None Inr True
            by (auto split: option.splits)
        qed
      qed
    qed
  qed
qed

lemma collect_from_success:
  "collect_from E c vProviders res party t = (Return None, t') \<longleftrightarrow>
     party_ok E c vProviders res party t t'"
proof (cases "IsMe E party")
  case True
  then show ?thesis
    by (auto simp: collect_from_def party_ok_def split: prod.splits option.splits)
next
  case False
  show ?thesis
  proof (cases "reply_of E c party t")
    case None
    then show ?thesis
      using False
      by (auto simp: collect_from_def party_ok_def reply_of_def for_responses_success
               split: sum.splits option.splits received.splits if_splits prod.splits)
  next
    case (Some prs)
    then obtain txRaw msg responses where
      m: "(if deleteTransient c then tx_BytesNoTransient E t else tx_Bytes E t) = Inr txRaw"
      and s: "GetSession E party = None" "session_Send E party txRaw = None"
      and r: "session_Receive E party txRaw = Msg msg" "msg_Status msg \<noteq> view_ERROR"
      and j: "json_Unmarshal E (msg_Payload msg) = Inr responses" "GetFabricNetworkService E"
      and p: "parse_all E responses = Some prs"
      by (auto simp: reply_of_def split: sum.splits option.splits received.splits if_splits)
    have "collect_from E c vProviders res party t =
            (case for_responses E vProviders res party responses False t of
               (Some err, found, t1) \<Rightarrow> (Return (Some err), t1)
             | (None, found, t1) \<Rightarrow>
                 if \<not> found then (Return (Some (ErrInvalidEndorsement party)), t1)
                 else (Return None, t1))"
      using False m s r j by (simp add: collect_from_def)
    also have "\<dots> = (Return None, t') \<longleftrightarrow>
                for_responses E vProviders res party responses False t = (None, True, t')"
      by (auto split: prod.splits option.splits)
    finally show ?thesis
      using False Some p by (auto simp: party_ok_def for_responses_success)
  qed
qed

lemma for_parties_success:
  "for_parties E c vProviders res ps t = (Return None, t') \<longleftrightarrow>
     (\<exists>ts. parties_ok E c vProviders res ps (t # ts) \<and> last (t # ts) = t')"
proof (induction ps arbitrary: t)
  case Nil
  then show ?case by auto
next
  case (Cons p ps)
  show ?case
  proof
    assume run: "for_parties E c vProviders res (p # ps) t = (Return None, t')"
    then obtain t1 where one: "collect_from E c vProviders res p t = (Return None, t1)"
      and rest: "for_parties E c vProviders res ps t1 = (Return None, t')"
      by (auto split: prod.splits outcome.splits option.splits)
    from rest obtain ts where "parties_ok E c vProviders res ps (t1 # ts)" "last (t1 # ts) = t'"
      using Cons.IH by blast
    with one have "parties_ok E c vProviders res (p # ps) (t # t1 # ts) \<and> last (t # t1 # ts) = t'"
      by (simp add: collect_from_success)
    then show "\<exists>ts. parties_ok E c vProviders res (p # ps) (t # ts) \<and> last (t # ts) = t'"
      by blast
  next
    assume "\<exists>ts. parties_ok E c vProviders res (p # ps) (t # ts) \<and> last (t # ts) = t'"
    then obtain ts where ok: "parties_ok E c vProviders res (p # ps) (t # ts)"
      and l: "last (t # ts) = t'" by blast
    from ok obtain t1 rest where ts: "ts = t1 # rest"
      and one: "party_ok E c vProviders res p t t1"
      and more: "parties_ok E c vProviders res ps (t1 # rest)"
      by (auto split: list.splits)
    from more l ts have "for_parties E c vProviders res ps t1 = (Return None, t')"
      using Cons.IH by auto
    with one show "for_parties E c vProviders res (p # ps) t = (Return None, t')"
      by (simp add: collect_from_success [symmetric])
  qed
qed

lemma parties_ok_indexed:
  "parties_ok E c vProviders res ps ts \<longleftrightarrow>
     length ts = Suc (length ps)
     \<and> (\<forall>i < length ps. party_ok E c vProviders res (ps ! i) (ts ! i) (ts ! Suc i))"
proof (induction ps arbitrary: ts)
  case Nil
  then show ?case by simp
next
  case (Cons p ps)
  show ?case
  proof (cases ts)
    case Nil
    then show ?thesis by simp
  next
    case (Cons t ts1)
    note outer = this
    show ?thesis
    proof (cases ts1)
      case Nil
      with outer show ?thesis by simp
    next
      case (Cons t1 rest)
      with outer show ?thesis
        by (auto simp: Cons.IH All_less_Suc2)
    qed
  qed
qed

lemma env0_ok:
  "response_ok (endorse_env0 reply) [] ''rws'' (response_by e)"
  by (simp add: response_ok_def get_verifier_def endorse_env0_def response_by_def accept_ok_def)

lemma env0_me:
  "collect_from (endorse_env0 reply) view0 [] ''rws'' ''me'' t = (Return None, t @ [response_by ''me''])"
  by (simp add: collect_from_def endorse_env0_def)

lemma env0_reply_12:
  "reply_of (endorse_env0 ''12'') view0 ''B'' t = Some [response_by ''B1'', response_by ''B2'']"
  by (simp add: reply_of_def endorse_env0_def view0_def view_ERROR_def decode_response_def)

lemma env0_reply_x:
  "reply_of (endorse_env0 ''x'') view0 ''B'' t = Some [response_by ''E'']"
  by (simp add: reply_of_def endorse_env0_def view0_def view_ERROR_def decode_response_def)

lemma env0_append:
  "append_all (endorse_env0 reply) prs t = Some (t @ prs)"
  by (induction prs arbitrary: t) (simp_all add: endorse_env0_def)

lemma env0_facts:
  "IsMe (endorse_env0 reply) p = (p = ''me'')"
  "IsBoundTo (endorse_env0 reply) e p = (p = ''B'' \<and> (e = ''B1'' \<or> e = ''B2''))"
  "GetViewTracker (endorse_env0 reply) = None" "fns_Channel (endorse_env0 reply) = None"
  "tx_Results (endorse_env0 reply) t = Inr ''rws''"
  "tx_verifierProviders (endorse_env0 reply) = []"
  "EndorseWithIdentity (endorse_env0 reply) p t = (None, t @ [response_by p])"
  by (simp_all add: endorse_env0_def)

lemma view0_facts:
  "parties view0 = [''me'', ''B'']" "verifierProviders view0 = []"
  by (simp_all add: view0_def)

lemma Endorser_response_by: "Endorser (response_by e) = e"
  by (simp add: response_by_def)

lemma Call_prelude:
  "GetViewTracker E = None \<Longrightarrow> fns_Channel E = None \<Longrightarrow> tx_Results E t = Inr res \<Longrightarrow>
     Call E c t = for_parties E c (verifierProviders c @ tx_verifierProviders E) res (parties c) t"
  by (simp add: Call_def)

text \<open>
  Claim C1, as the code has it. \<open>Call\<close> returns the transaction exactly when the view
  tracker, the channel and the local results are obtained and every party of the list is
  handled with success, in the order of the list and each on the transaction its
  predecessor left. The local party is handled with success when the local endorsement
  succeeds. A remote party is handled with success when the transaction is marshalled,
  the session is opened, the payload is sent, a reply arrives in time that is not an
  error reply and decodes to a list of responses, every response of that list (there may
  be none, one or several) has a verifier, a valid signature over payload and endorser
  and the local results and is appended to the transaction, and at least one response
  is signed by an identity bound to the party. In every other case the result is not the
  transaction.
\<close>

theorem Call_succeeds_iff:
  "Call E c t = (Return None, t') \<longleftrightarrow>
     GetViewTracker E = None \<and> fns_Channel E = None
     \<and> (\<exists>res ts. tx_Results E t = Inr res
           \<and> length ts = Suc (length (parties c)) \<and> ts ! 0 = t \<and> ts ! length (parties c) = t'
           \<and> (\<forall>i < length (parties c).
                 party_ok E c (verifierProviders c @ tx_verifierProviders E) res
                   (parties c ! i) (ts ! i) (ts ! Suc i)))"
  (is "?run \<longleftrightarrow> ?pre1 \<and> ?pre2 \<and> (\<exists>res ts. ?chain res ts)")
proof
  let ?vp = "verifierProviders c @ tx_verifierProviders E"
  assume run: ?run
  have pre1: ?pre1
    using run by (cases "GetViewTracker E") (simp_all add: Call_def)
  have pre2: ?pre2
    using run pre1 by (cases "fns_Channel E") (simp_all add: Call_def)
  obtain res where res: "tx_Results E t = Inr res"
    using run pre1 pre2 by (cases "tx_Results E t") (simp_all add: Call_def)
  have "for_parties E c ?vp res (parties c) t = (Return None, t')"
    using run by (simp add: Call_prelude [OF pre1 pre2 res])
  then have "\<exists>ts. parties_ok E c ?vp res (parties c) (t # ts) \<and> last (t # ts) = t'"
    by (rule for_parties_success [THEN iffD1])
  then obtain ts where ok: "parties_ok E c ?vp res (parties c) (t # ts)"
    and l: "last (t # ts) = t'"
    by blast
  from ok have "length (t # ts) = Suc (length (parties c))
      \<and> (\<forall>i < length (parties c).
                 party_ok E c ?vp res (parties c ! i) ((t # ts) ! i) ((t # ts) ! Suc i))"
    by (rule parties_ok_indexed [THEN iffD1])
  then have len: "length (t # ts) = Suc (length (parties c))"
    and each: "\<forall>i < length (parties c).
                 party_ok E c ?vp res (parties c ! i) ((t # ts) ! i) ((t # ts) ! Suc i)"
    by blast+
  have "last (t # ts) = (t # ts) ! (length (t # ts) - 1)"
    by (rule last_conv_nth) simp
  with len l have final: "(t # ts) ! length (parties c) = t'"
    by simp
  have first: "(t # ts) ! 0 = t" by simp
  from res len first final each have "?chain res (t # ts)"
    by blast
  with pre1 pre2 show "?pre1 \<and> ?pre2 \<and> (\<exists>res ts. ?chain res ts)"
    by blast
next
  let ?vp = "verifierProviders c @ tx_verifierProviders E"
  assume "?pre1 \<and> ?pre2 \<and> (\<exists>res ts. ?chain res ts)"
  then obtain res ts where pre: "GetViewTracker E = None" "fns_Channel E = None"
    and res: "tx_Results E t = Inr res"
    and len: "length ts = Suc (length (parties c))"
    and first: "ts ! 0 = t" and final: "ts ! length (parties c) = t'"
    and each: "\<forall>i < length (parties c). party_ok E c ?vp res (parties c ! i) (ts ! i) (ts ! Suc i)"
    by blast
  from len first obtain ts1 where ts: "ts = t # ts1"
    by (cases ts) simp_all
  from len each have "length ts = Suc (length (parties c))
      \<and> (\<forall>i < length (parties c). party_ok E c ?vp res (parties c ! i) (ts ! i) (ts ! Suc i))"
    by blast
  then have ok: "parties_ok E c ?vp res (parties c) ts"
    by (rule parties_ok_indexed [THEN iffD2])
  have "last ts = ts ! (length ts - 1)"
    by (rule last_conv_nth) (simp add: ts)
  with len final have "last ts = t'"
    by simp
  with ok ts have "\<exists>ts1. parties_ok E c ?vp res (parties c) (t # ts1) \<and> last (t # ts1) = t'"
    by blast
  then have "for_parties E c ?vp res (parties c) t = (Return None, t')"
    by (rule for_parties_success [THEN iffD2])
  then show ?run
    by (simp add: Call_prelude [OF pre res])
qed


lemma env0_party_B_12:
  "party_ok (endorse_env0 ''12'') view0 [] ''rws'' ''B'' t (t @ [response_by ''B1'', response_by ''B2''])"
  by (simp add: party_ok_def env0_facts env0_reply_12 env0_ok env0_append Endorser_response_by
           del: append_all.simps)

lemma env0_party_me:
  "party_ok (endorse_env0 reply) view0 [] ''rws'' ''me'' t (t @ [response_by ''me''])"
  by (simp add: party_ok_def env0_facts)

theorem Call_succeeds_iff_witness:
  "Call (endorse_env0 ''12'') view0 []
     = (Return None, [response_by ''me'', response_by ''B1'', response_by ''B2''])"
proof -
  let ?ts = "[[], [response_by ''me''], [response_by ''me'', response_by ''B1'', response_by ''B2'']]"
  have each: "\<forall>i < length (parties view0).
      party_ok (endorse_env0 ''12'') view0 (verifierProviders view0 @ tx_verifierProviders (endorse_env0 ''12''))
        ''rws'' (parties view0 ! i) (?ts ! i) (?ts ! Suc i)"
    using env0_party_me [of "''12''" "[]"] env0_party_B_12 [of "[response_by ''me'']"]
    by (simp add: view0_facts env0_facts All_less_Suc)
  have "GetViewTracker (endorse_env0 ''12'') = None \<and> fns_Channel (endorse_env0 ''12'') = None
     \<and> (\<exists>res ts. tx_Results (endorse_env0 ''12'') [] = Inr res
           \<and> length ts = Suc (length (parties view0)) \<and> ts ! 0 = []
           \<and> ts ! length (parties view0) = [response_by ''me'', response_by ''B1'', response_by ''B2'']
           \<and> (\<forall>i < length (parties view0).
                 party_ok (endorse_env0 ''12'') view0
                   (verifierProviders view0 @ tx_verifierProviders (endorse_env0 ''12'')) res
                   (parties view0 ! i) (ts ! i) (ts ! Suc i)))"
    using each
    by (intro conjI exI [of _ "''rws''"] exI [of _ ?ts]) (simp_all add: env0_facts view0_facts)
  then show ?thesis
    by (rule Call_succeeds_iff [THEN iffD2])
qed

text \<open>
  The claim as it was stated fails: party \<open>B\<close> returns two responses, not exactly one, and
  the local party returns none (it endorses in process); the call succeeds and returns the
  transaction with the three endorsements.
\<close>

theorem Call_two_responses_counterexample:
  "fst (Call (endorse_env0 ''12'') view0 []) = Return None
   \<and> snd (Call (endorse_env0 ''12'') view0 [])
       = [response_by ''me'', response_by ''B1'', response_by ''B2'']
   \<and> reply_of (endorse_env0 ''12'') view0 ''B'' [response_by ''me'']
       = Some [response_by ''B1'', response_by ''B2'']"
proof -
  have b: "collect_from (endorse_env0 ''12'') view0 [] ''rws'' ''B'' [response_by ''me'']
             = (Return None, [response_by ''me''] @ [response_by ''B1'', response_by ''B2''])"
    using env0_party_B_12 [of "[response_by ''me'']"] by (simp only: collect_from_success)
  have "Call (endorse_env0 ''12'') view0 []
          = (Return None, [response_by ''me'', response_by ''B1'', response_by ''B2''])"
    using b by (simp add: Call_def env0_facts view0_facts env0_me)
  then show ?thesis by (simp add: env0_reply_12)
qed

lemma for_parties_append:
  "for_parties E c vProviders res pre t = (Return None, t1) \<Longrightarrow>
     for_parties E c vProviders res (pre @ ps) t = for_parties E c vProviders res ps t1"
proof (induction pre arbitrary: t)
  case Nil
  then show ?case by simp
next
  case (Cons p pre)
  then show ?case
    by (auto split: prod.splits outcome.splits option.splits)
qed

lemma collect_from_unbound:
  assumes remote: "\<not> IsMe E party"
    and reply: "reply_of E c party t = Some prs"
    and valid: "list_all (response_ok E vProviders res) prs"
    and unbound: "\<not> list_ex (\<lambda>pr. IsBoundTo E (Endorser pr) party) prs"
    and appended: "append_all E prs t = Some t'"
  shows "collect_from E c vProviders res party t = (Return (Some (ErrInvalidEndorsement party)), t')"
proof -
  from reply obtain txRaw msg responses where
    m: "(if deleteTransient c then tx_BytesNoTransient E t else tx_Bytes E t) = Inr txRaw"
    and s: "GetSession E party = None" "session_Send E party txRaw = None"
    and r: "session_Receive E party txRaw = Msg msg" "msg_Status msg \<noteq> view_ERROR"
    and j: "json_Unmarshal E (msg_Payload msg) = Inr responses" "GetFabricNetworkService E"
    and p: "parse_all E responses = Some prs"
    by (auto simp: reply_of_def split: sum.splits option.splits received.splits if_splits)
  have "\<exists>prs. parse_all E responses = Some prs
        \<and> list_all (response_ok E vProviders res) prs
        \<and> append_all E prs t = Some t'
        \<and> False = (False \<or> list_ex (\<lambda>pr. IsBoundTo E (Endorser pr) party) prs)"
    using p valid unbound appended by blast
  then have "for_responses E vProviders res party responses False t = (None, False, t')"
    by (rule for_responses_success [THEN iffD2])
  then show ?thesis
    using remote m s r j by (simp add: collect_from_def)
qed

text \<open>
  Claim C9, as the code has it. Let the parties before a remote party be handled with
  success. If the reply of that party decodes to responses that all have a verifier, a
  valid signature and the local results, and none of them is signed by an identity bound
  to the party, then \<open>Call\<close> fails with the error \<open>invalid endorsement\<close>, and the
  transaction it leaves holds the responses of that reply: they were appended before the
  binding was checked, and they are not taken back.
\<close>

theorem Call_unbound_reply_rejected_after_append:
  assumes "GetViewTracker E = None" and "fns_Channel E = None" and "tx_Results E t = Inr res"
    and "parties c = pre @ party # post"
    and "for_parties E c (verifierProviders c @ tx_verifierProviders E) res pre t = (Return None, t1)"
    and "\<not> IsMe E party"
    and "reply_of E c party t1 = Some prs"
    and "list_all (response_ok E (verifierProviders c @ tx_verifierProviders E) res) prs"
    and "\<not> list_ex (\<lambda>pr. IsBoundTo E (Endorser pr) party) prs"
    and "append_all E prs t1 = Some t2"
  shows "Call E c t = (Return (Some (ErrInvalidEndorsement party)), t2)"
proof -
  let ?vp = "verifierProviders c @ tx_verifierProviders E"
  have "Call E c t = for_parties E c ?vp res (pre @ party # post) t"
    using assms(1-4) by (simp add: Call_prelude)
  also have "\<dots> = for_parties E c ?vp res (party # post) t1"
    by (rule for_parties_append [OF assms(5)])
  also have "\<dots> = (Return (Some (ErrInvalidEndorsement party)), t2)"
    using collect_from_unbound [OF assms(6-10)] by simp
  finally show ?thesis .
qed

theorem Call_unbound_reply_rejected_after_append_witness:
  "Call (endorse_env0 ''x'') view0 []
     = (Return (Some (ErrInvalidEndorsement ''B'')), [response_by ''me'', response_by ''E''])"
proof -
  let ?E = "endorse_env0 ''x''"
  have 1: "GetViewTracker ?E = None" "fns_Channel ?E = None" "tx_Results ?E [] = Inr ''rws''"
    by (simp_all add: env0_facts)
  have 2: "parties view0 = [''me''] @ ''B'' # []"
    by (simp add: view0_facts)
  have 3: "for_parties ?E view0 (verifierProviders view0 @ tx_verifierProviders ?E) ''rws'' [''me''] []
             = (Return None, [response_by ''me''])"
    by (simp add: view0_facts env0_facts env0_me)
  have 4: "\<not> IsMe ?E ''B''"
    by (simp add: env0_facts)
  have 5: "reply_of ?E view0 ''B'' [response_by ''me''] = Some [response_by ''E'']"
    by (rule env0_reply_x)
  have 6: "list_all (response_ok ?E (verifierProviders view0 @ tx_verifierProviders ?E) ''rws'')
             [response_by ''E'']"
    by (simp add: view0_facts env0_facts env0_ok)
  have 7: "\<not> list_ex (\<lambda>pr. IsBoundTo ?E (Endorser pr) ''B'') [response_by ''E'']"
    by (simp add: env0_facts Endorser_response_by)
  have 8: "append_all ?E [response_by ''E''] [response_by ''me'']
             = Some [response_by ''me'', response_by ''E'']"
    by (simp add: env0_append del: append_all.simps)
  show ?thesis
    by (rule Call_unbound_reply_rejected_after_append [OF 1 2 3 4 5 6 7 8])
qed

text \<open>
  The claim as it was stated fails: the reply of party \<open>B\<close> is one response signed by
  \<open>E\<close>, an identity not bound to \<open>B\<close>; the call fails with \<open>invalid endorsement\<close>, and
  the response of \<open>E\<close> is in the transaction.
\<close>

theorem Call_unbound_reply_counterexample:
  "fst (Call (endorse_env0 ''x'') view0 []) = Return (Some (ErrInvalidEndorsement ''B''))
   \<and> snd (Call (endorse_env0 ''x'') view0 []) = [response_by ''me'', response_by ''E'']
   \<and> reply_of (endorse_env0 ''x'') view0 ''B'' [response_by ''me''] = Some [response_by ''E'']
   \<and> IsBoundTo (endorse_env0 ''x'') ''E'' ''B'' = False"
proof -
  have r: "for_responses (endorse_env0 ''x'') [] ''rws'' ''B'' [''x''] False [response_by ''me'']
             = (None, False, [response_by ''me'', response_by ''E''])"
    by (simp add: endorse_env0_def decode_response_def get_verifier_def accept_ok_def
                  response_by_def)
  have b: "collect_from (endorse_env0 ''x'') view0 [] ''rws'' ''B'' [response_by ''me'']
             = (Return (Some (ErrInvalidEndorsement ''B'')), [response_by ''me'', response_by ''E''])"
    using r by (simp add: collect_from_def endorse_env0_def view0_def view_ERROR_def)
  have "Call (endorse_env0 ''x'') view0 []
          = (Return (Some (ErrInvalidEndorsement ''B'')), [response_by ''me'', response_by ''E''])"
    using b by (simp add: Call_def env0_facts view0_facts env0_me)
  then show ?thesis by (simp add: env0_reply_x env0_facts)
qed

end
